theory Spec2Isabelle
  imports Complex_Main "HOL-Library.Log_Nat"
begin

section \<open>Python values\<close>

text \<open>
  The converter \<^verbatim>\<open>timestamp_to_premiere.py\<close> is untyped Python: what it reads from the
  JSON lines file is passed on unconverted, so the model keeps the values as JSON values
  and raises the exceptions Python raises.  Exceptions are values of \<open>exn\<close>; a
  computation that may raise has type \<open>exn + 'a\<close>.
\<close>

datatype exn =
  AttributeError | TypeError | ValueError | OverflowError | ZeroDivisionError | KeyError
  | RecursionError | OtherError

text \<open>
  A Python \<^verbatim>\<open>float\<close> is an IEEE 754 binary64 value: a finite rational, an infinity or
  NaN.  The sign of zero is not kept (no operation of the program observes it).
\<close>

datatype pyfloat = Finite rat | PInf | NInf | NaN

datatype json =
  JNull | JBool bool | JInt int | JFloat pyfloat | JStr string
  | JList "json list" | JDict "(string \<times> json) list"

text \<open>Sequencing of computations that may raise.\<close>

definition and_then :: "exn + 'a \<Rightarrow> ('a \<Rightarrow> exn + 'b) \<Rightarrow> exn + 'b" where
  "and_then m f = (case m of Inl e \<Rightarrow> Inl e | Inr x \<Rightarrow> f x)"

fun traverse :: "('a \<Rightarrow> exn + 'b) \<Rightarrow> 'a list \<Rightarrow> exn + 'b list" where
  "traverse f [] = Inr []"
| "traverse f (x # xs) =
     and_then (f x) (\<lambda>y. and_then (traverse f xs) (\<lambda>ys. Inr (y # ys)))"

section \<open>Floating-point arithmetic\<close>

text \<open>
  \<open>round_binary64\<close> rounds a rational to the nearest binary64 value, ties to even,
  with gradual underflow and no upper bound; \<open>to_double\<close> adds the overflow to an
  infinity.  \<open>ilog2 x\<close> is the floor of the binary logarithm of a positive rational.
\<close>

definition pow2 :: "int \<Rightarrow> rat" where
  "pow2 k = (if 0 \<le> k then 2 ^ nat k else 1 / 2 ^ nat (- k))"

definition ilog2 :: "rat \<Rightarrow> int" where
  "ilog2 x = (case quotient_of x of (p, q) \<Rightarrow>
     let k = bitlen p - bitlen q in if pow2 k \<le> x then k else k - 1)"

definition round_half_even :: "rat \<Rightarrow> int" where
  "round_half_even x = (let n = \<lfloor>x\<rfloor>; d = x - of_int n in
     if d < 1 / 2 then n else if 1 / 2 < d then n + 1 else if even n then n else n + 1)"

definition round_binary64 :: "rat \<Rightarrow> rat" where
  "round_binary64 x = (if x = 0 then 0 else
     let e = max (ilog2 \<bar>x\<bar> - 52) (- 1074)
     in sgn x * of_int (round_half_even (\<bar>x\<bar> / pow2 e)) * pow2 e)"

definition to_double :: "rat \<Rightarrow> pyfloat" where
  "to_double x = (let y = round_binary64 x in
     if 2 ^ 1024 \<le> \<bar>y\<bar> then (if 0 < y then PInf else NInf) else Finite y)"

text \<open>\<^verbatim>\<open>float(n)\<close> for an \<^verbatim>\<open>int\<close>, as done implicitly by \<^verbatim>\<open>n / 1000.0\<close>: too large an
  integer raises OverflowError.\<close>

definition float_of_int :: "int \<Rightarrow> exn + pyfloat" where
  "float_of_int n =
     (case to_double (of_int n) of Finite y \<Rightarrow> Inr (Finite y) | _ \<Rightarrow> Inl OverflowError)"

text \<open>\<^verbatim>\<open>x * y\<close> on floats never raises: it overflows to an infinity.\<close>

fun float_mul :: "pyfloat \<Rightarrow> pyfloat \<Rightarrow> pyfloat" where
  "float_mul NaN _ = NaN"
| "float_mul _ NaN = NaN"
| "float_mul (Finite a) (Finite b) = to_double (a * b)"
| "float_mul (Finite a) PInf = (if a = 0 then NaN else if 0 < a then PInf else NInf)"
| "float_mul (Finite a) NInf = (if a = 0 then NaN else if 0 < a then NInf else PInf)"
| "float_mul PInf (Finite b) = (if b = 0 then NaN else if 0 < b then PInf else NInf)"
| "float_mul NInf (Finite b) = (if b = 0 then NaN else if 0 < b then NInf else PInf)"
| "float_mul PInf PInf = PInf"
| "float_mul PInf NInf = NInf"
| "float_mul NInf PInf = NInf"
| "float_mul NInf NInf = PInf"

text \<open>\<^verbatim>\<open>x / y\<close> on floats raises ZeroDivisionError for a zero divisor.\<close>

fun float_truediv :: "pyfloat \<Rightarrow> pyfloat \<Rightarrow> exn + pyfloat" where
  "float_truediv x (Finite b) =
     (if b = 0 then Inl ZeroDivisionError
      else case x of
        Finite a \<Rightarrow> Inr (to_double (a / b))
      | PInf \<Rightarrow> Inr (if 0 < b then PInf else NInf)
      | NInf \<Rightarrow> Inr (if 0 < b then NInf else PInf)
      | NaN \<Rightarrow> Inr NaN)"
| "float_truediv x NaN = Inr NaN"
| "float_truediv (Finite a) _ = Inr (Finite 0)"
| "float_truediv _ _ = Inr NaN"

text \<open>\<^verbatim>\<open>x - y\<close> on finite floats.\<close>

definition float_sub :: "rat \<Rightarrow> rat \<Rightarrow> pyfloat" where
  "float_sub a b = to_double (a - b)"

fun float_abs :: "pyfloat \<Rightarrow> pyfloat" where
  "float_abs (Finite a) = Finite \<bar>a\<bar>"
| "float_abs NaN = NaN"
| "float_abs _ = PInf"

text \<open>\<^verbatim>\<open>x < c\<close> for a float \<open>x\<close> and a finite constant \<open>c\<close>.\<close>

fun float_less :: "pyfloat \<Rightarrow> rat \<Rightarrow> bool" where
  "float_less (Finite a) c = (a < c)"
| "float_less NInf c = True"
| "float_less _ c = False"

text \<open>\<^verbatim>\<open>x == y\<close> on floats: NaN is equal to nothing.\<close>

fun float_eq :: "pyfloat \<Rightarrow> pyfloat \<Rightarrow> bool" where
  "float_eq NaN _ = False"
| "float_eq _ NaN = False"
| "float_eq x y = (x = y)"

text \<open>\<^verbatim>\<open>int(x)\<close> for a float truncates toward zero; it raises ValueError for NaN and
  OverflowError for an infinity.\<close>

definition trunc :: "rat \<Rightarrow> int" where
  "trunc r = (if 0 \<le> r then \<lfloor>r\<rfloor> else \<lceil>r\<rceil>)"

fun int_of_float :: "pyfloat \<Rightarrow> exn + int" where
  "int_of_float (Finite r) = Inr (trunc r)"
| "int_of_float NaN = Inl ValueError"
| "int_of_float _ = Inl OverflowError"

section \<open>Strings\<close>

text \<open>Strings are modelled over ASCII: \<open>lower\<close> maps \<^verbatim>\<open>A-Z\<close> to \<^verbatim>\<open>a-z\<close> and leaves every
  other character alone.\<close>

definition lower_char :: "char \<Rightarrow> char" where
  "lower_char c =
     (case map_of (zip ''ABCDEFGHIJKLMNOPQRSTUVWXYZ'' ''abcdefghijklmnopqrstuvwxyz'') c of
        None \<Rightarrow> c
      | Some l \<Rightarrow> l)"

definition lower :: "string \<Rightarrow> string" where
  "lower s = map lower_char s"

definition endswith :: "string \<Rightarrow> string \<Rightarrow> bool" where
  "endswith s e = (length e \<le> length s \<and> drop (length s - length e) s = e)"

definition digit_char :: "nat \<Rightarrow> char" where
  "digit_char n = ''0123456789'' ! n"

fun digits :: "nat \<Rightarrow> string" where
  "digits n = (if n < 10 then [digit_char n] else digits (n div 10) @ [digit_char (n mod 10)])"

declare digits.simps [simp del]

text \<open>\<^verbatim>\<open>str(n)\<close> for an \<^verbatim>\<open>int\<close>.\<close>

definition str_int :: "int \<Rightarrow> string" where
  "str_int i = (if i < 0 then CHR ''-'' # digits (nat (- i)) else digits (nat i))"

section \<open>Frame conversion and colour codes\<close>

text \<open>
  \<^verbatim>\<open>def ms_to_frames(milliseconds, fps): return int((milliseconds / 1000.0) * fps)\<close>

  \<open>milliseconds\<close> is an \<^verbatim>\<open>int\<close>, \<open>fps\<close> a float (the default \<^verbatim>\<open>60\<close> of the command line
  is an \<^verbatim>\<open>int\<close>, which the multiplication converts to \<^verbatim>\<open>60.0\<close> exactly).
\<close>

definition ms_to_frames :: "int \<Rightarrow> pyfloat \<Rightarrow> exn + int" where
  "ms_to_frames milliseconds fps =
     and_then (float_of_int milliseconds) (\<lambda>m.
     and_then (float_truediv m (Finite 1000)) (\<lambda>seconds.
     int_of_float (float_mul seconds fps)))"

text \<open>The binary64 value of \<^verbatim>\<open>(ms / 1000.0) * fps\<close> for finite operands, overflow apart.\<close>

definition seconds_times_fps :: "int \<Rightarrow> rat \<Rightarrow> rat" where
  "seconds_times_fps ms fps =
     round_binary64 (round_binary64 (round_binary64 (of_int ms) / 1000) * fps)"

definition COLOR_MAP :: "(string \<times> string) list" where
  "COLOR_MAP =
    [(''blue'', ''4294741314''),
     (''cyan'', ''4294940928''),
     (''green'', ''4278255360''),
     (''yellow'', ''4278255615''),
     (''red'', ''4294901760''),
     (''magenta'', ''4294902015''),
     (''purple'', ''4286578816''),
     (''orange'', ''4294924800'')]"

text \<open>
  \<^verbatim>\<open>def get_color_code(color_name):
      return COLOR_MAP.get(color_name.lower(), COLOR_MAP["blue"])\<close>

  Only a \<^verbatim>\<open>str\<close> has the method \<^verbatim>\<open>lower\<close>: every other JSON value raises AttributeError.
\<close>

definition get_color_code :: "json \<Rightarrow> exn + string" where
  "get_color_code color_name =
     (case color_name of
        JStr s \<Rightarrow>
          (case map_of COLOR_MAP ''blue'' of
             None \<Rightarrow> Inl KeyError
           | Some blue \<Rightarrow>
               Inr (case map_of COLOR_MAP (lower s) of Some c \<Rightarrow> c | None \<Rightarrow> blue))
      | _ \<Rightarrow> Inl AttributeError)"

section \<open>Operations on JSON values\<close>

text \<open>Truth value of a Python object (\<^verbatim>\<open>if x\<close>, \<^verbatim>\<open>not x\<close>).\<close>

fun truthy :: "json \<Rightarrow> bool" where
  "truthy JNull = False"
| "truthy (JBool b) = b"
| "truthy (JInt n) = (n \<noteq> 0)"
| "truthy (JFloat x) = (x \<noteq> Finite 0)"
| "truthy (JStr s) = (s \<noteq> [])"
| "truthy (JList xs) = (xs \<noteq> [])"
| "truthy (JDict kvs) = (kvs \<noteq> [])"

text \<open>\<^verbatim>\<open>needle in haystack\<close> on strings.\<close>

fun contains_str :: "string \<Rightarrow> string \<Rightarrow> bool" where
  "contains_str needle [] = (needle = [])"
| "contains_str needle (c # cs) =
     (take (length needle) (c # cs) = needle \<or> contains_str needle cs)"

text \<open>\<^verbatim>\<open>key in data\<close> for a string \<open>key\<close>: key membership for a dict, element membership
  for a list, substring test for a string, TypeError for everything else.  A dict is an
  association list in which the first pair of a key counts.\<close>

fun py_in :: "string \<Rightarrow> json \<Rightarrow> exn + bool" where
  "py_in key (JDict kvs) = Inr (map_of kvs key \<noteq> None)"
| "py_in key (JList xs) = Inr (JStr key \<in> set xs)"
| "py_in key (JStr s) = Inr (contains_str key s)"
| "py_in key _ = Inl TypeError"

text \<open>\<^verbatim>\<open>data[key]\<close> for a string \<open>key\<close>.\<close>

fun py_getitem :: "json \<Rightarrow> string \<Rightarrow> exn + json" where
  "py_getitem (JDict kvs) key = (case map_of kvs key of None \<Rightarrow> Inl KeyError | Some v \<Rightarrow> Inr v)"
| "py_getitem _ key = Inl TypeError"

text \<open>\<^verbatim>\<open>data.get(key, default)\<close>: only a dict has the method.\<close>

fun dict_get :: "json \<Rightarrow> string \<Rightarrow> json \<Rightarrow> exn + json" where
  "dict_get (JDict kvs) key dflt = Inr (case map_of kvs key of None \<Rightarrow> dflt | Some v \<Rightarrow> v)"
| "dict_get _ key dflt = Inl AttributeError"

text \<open>\<^verbatim>\<open>int(v)\<close>; the conversion of a string is the platform's.\<close>

fun py_int :: "(string \<Rightarrow> int option) \<Rightarrow> json \<Rightarrow> exn + int" where
  "py_int conv (JInt n) = Inr n"
| "py_int conv (JBool b) = Inr (if b then 1 else 0)"
| "py_int conv (JFloat x) = int_of_float x"
| "py_int conv (JStr s) = (case conv s of None \<Rightarrow> Inl ValueError | Some n \<Rightarrow> Inr n)"
| "py_int conv _ = Inl TypeError"

text \<open>\<^verbatim>\<open>a / b\<close> on JSON values: the quotient of two integers is rounded once, an integer
  meeting a float is converted first, and anything that is not a number raises TypeError.\<close>

fun number_of :: "json \<Rightarrow> (int + pyfloat) option" where
  "number_of (JInt n) = Some (Inl n)"
| "number_of (JBool b) = Some (Inl (if b then 1 else 0))"
| "number_of (JFloat x) = Some (Inr x)"
| "number_of _ = None"

definition py_truediv :: "json \<Rightarrow> json \<Rightarrow> exn + pyfloat" where
  "py_truediv x y =
     (case (number_of x, number_of y) of
        (Some (Inl a), Some (Inl b)) \<Rightarrow>
          (if b = 0 then Inl ZeroDivisionError
           else case to_double (of_int a / of_int b) of
             Finite q \<Rightarrow> Inr (Finite q) | _ \<Rightarrow> Inl OverflowError)
      | (Some (Inl a), Some (Inr g)) \<Rightarrow> and_then (float_of_int a) (\<lambda>f. float_truediv f g)
      | (Some (Inr f), Some (Inl b)) \<Rightarrow> and_then (float_of_int b) (\<lambda>g. float_truediv f g)
      | (Some (Inr f), Some (Inr g)) \<Rightarrow> float_truediv f g
      | _ \<Rightarrow> Inl TypeError)"

text \<open>\<^verbatim>\<open>format(v, '<30')\<close> inside an f-string: \<^verbatim>\<open>None\<close>, lists and dicts reject a
  non-empty format specification with TypeError.\<close>

fun py_format :: "json \<Rightarrow> exn + unit" where
  "py_format JNull = Inl TypeError"
| "py_format (JList xs) = Inl TypeError"
| "py_format (JDict kvs) = Inl TypeError"
| "py_format _ = Inr ()"

section \<open>Markers, documents and the platform\<close>

record marker =
  timestamp_ms :: int
  comment :: json
  name :: json
  color :: json

text \<open>An element of \<^verbatim>\<open>xml.etree.ElementTree\<close>: tag, attributes, text (\<open>JNull\<close> for
  \<^verbatim>\<open>None\<close>; the program stores what it was given) and children.\<close>

datatype xml = Element (tag: string) (attrib: "(string \<times> string) list") (etext: json)
  (children: "xml list")

definition leaf :: "string \<Rightarrow> string \<Rightarrow> xml" where
  "leaf t s = Element t [] (JStr s) []"

definition node :: "string \<Rightarrow> xml list \<Rightarrow> xml" where
  "node t cs = Element t [] JNull cs"

text \<open>
  What the program takes from the Python library and the operating system.  These are
  parameters of the model: \<^verbatim>\<open>json.loads\<close> (JSONDecodeError is a ValueError; the decoder
  can also raise RecursionError on deeply nested input), \<^verbatim>\<open>int\<close> on a
  string (\<open>None\<close> for ValueError), reading the lines of a text file (\<open>None\<close> when opening
  or decoding raises), \<^verbatim>\<open>os.path.exists\<close>, \<^verbatim>\<open>os.listdir\<close>, \<^verbatim>\<open>os.path.join\<close>,
  \<^verbatim>\<open>os.path.getmtime\<close>, \<^verbatim>\<open>datetime.strptime\<close> with the fixed format (\<open>None\<close> when it
  raises), \<^verbatim>\<open>datetime.timestamp()\<close> (the seconds since the epoch in the local time zone;
  it raises for a date the platform cannot convert, such as year 1),
  \<^verbatim>\<open>os.path.basename\<close>, the first component of \<^verbatim>\<open>os.path.splitext\<close>, the formatted
  current time, the serialisation \<^verbatim>\<open>ET.tostring\<close> followed by
  \<^verbatim>\<open>minidom.parseString(...).toprettyxml(indent='  ')\<close>, and writing a text file
  (the flag tells whether it succeeded).  \<open>'fs\<close> is the state of the file system.
\<close>

datatype datetime = Datetime (year: int) (month: int) (day: int) (hour: int) (minute: int)
  (second: int)

record 'fs platform =
  json_loads :: "string \<Rightarrow> exn + json"
  int_of_str :: "string \<Rightarrow> int option"
  read_lines :: "string \<Rightarrow> string list option"
  path_exists :: "json \<Rightarrow> exn + bool"
  listdir :: "json \<Rightarrow> exn + string list"
  path_join :: "json \<Rightarrow> string \<Rightarrow> exn + string"
  getmtime :: "string \<Rightarrow> exn + rat"
  strptime :: "json \<Rightarrow> datetime option"
  datetime_timestamp :: "datetime \<Rightarrow> exn + rat"
  basename :: "string \<Rightarrow> string"
  splitext_root :: "string \<Rightarrow> string"
  now_strftime :: string
  toprettyxml :: "xml \<Rightarrow> exn + string"
  write_file :: "string \<Rightarrow> string \<Rightarrow> 'fs \<Rightarrow> bool \<times> 'fs"

section \<open>The parser\<close>

text \<open>\<^verbatim>\<open>line.strip()\<close>: a character is a code point below 256, and the white space is
  what \<^verbatim>\<open>str.isspace\<close> accepts there (the ASCII white space, U+0085 and U+00A0).\<close>

definition is_space :: "char \<Rightarrow> bool" where
  "is_space c = ((of_char c :: nat) \<in> {9, 10, 11, 12, 13, 28, 29, 30, 31, 32, 133, 160})"

definition strip :: "string \<Rightarrow> string" where
  "strip s = rev (dropWhile is_space (rev (dropWhile is_space s)))"

text \<open>
  One turn of the loop of \<^verbatim>\<open>parse_timestamps\<close> (lines 69-102).  \<open>line_body\<close> is the body
  of the inner \<^verbatim>\<open>try\<close>; \<open>parse_line\<close> adds the handlers: JSONDecodeError (a ValueError),
  ValueError and TypeError skip the line, any other exception (the AttributeError of
  \<^verbatim>\<open>.get\<close>, the OverflowError of \<^verbatim>\<open>int\<close>, a RecursionError of the decoder) reaches the
  outer \<^verbatim>\<open>except Exception\<close>, which makes the function return \<^verbatim>\<open>(None, None)\<close>.
\<close>

datatype line_result = Skip | Metadata json | Timestamp marker | Abort

definition line_body :: "'fs platform \<Rightarrow> string \<Rightarrow> exn + line_result" where
  "line_body P line =
     and_then (json_loads P line) (\<lambda>data.
     and_then (py_in ''metadata'' data) (\<lambda>is_metadata.
     if is_metadata then
       and_then (py_getitem data ''metadata'') (\<lambda>metadata.
       and_then (dict_get metadata ''recording_path'' (JStr ''N/A'')) (\<lambda>_.
       Inr (Metadata metadata)))
     else
       and_then (py_in ''timestamp_ms'' data) (\<lambda>has_timestamp.
       if \<not> has_timestamp then Inr Skip
       else
         and_then (py_getitem data ''timestamp_ms'') (\<lambda>v.
         and_then (py_int (int_of_str P) v) (\<lambda>n.
         and_then (dict_get data ''comment'' (JStr [])) (\<lambda>c.
         and_then (dict_get data ''name'' (JStr [])) (\<lambda>nm.
         and_then (dict_get data ''color'' (JStr ''blue'')) (\<lambda>col.
         Inr (Timestamp \<lparr>timestamp_ms = n, comment = c, name = nm, color = col\<rparr>)))))))))"

definition parse_line :: "'fs platform \<Rightarrow> string \<Rightarrow> line_result" where
  "parse_line P raw =
     (let line = strip raw in
      if line = [] then Skip
      else case line_body P line of
        Inr r \<Rightarrow> r
      | Inl ValueError \<Rightarrow> Skip
      | Inl TypeError \<Rightarrow> Skip
      | Inl _ \<Rightarrow> Abort)"

fun parse_lines ::
  "'fs platform \<Rightarrow> string list \<Rightarrow> json \<Rightarrow> marker list \<Rightarrow> (json \<times> marker list) option" where
  "parse_lines P [] metadata timestamps = Some (metadata, timestamps)"
| "parse_lines P (l # ls) metadata timestamps =
     (case parse_line P l of
        Skip \<Rightarrow> parse_lines P ls metadata timestamps
      | Metadata m \<Rightarrow> parse_lines P ls m timestamps
      | Timestamp t \<Rightarrow> parse_lines P ls metadata (timestamps @ [t])
      | Abort \<Rightarrow> None)"

text \<open>\<^verbatim>\<open>parse_timestamps(file_path)\<close>: \<open>None\<close> stands for the pair \<^verbatim>\<open>(None, None)\<close>.\<close>

definition parse_timestamps :: "'fs platform \<Rightarrow> string \<Rightarrow> (json \<times> marker list) option" where
  "parse_timestamps P file_path =
     (case read_lines P file_path of
        None \<Rightarrow> None
      | Some lines \<Rightarrow> parse_lines P lines (JDict []) [])"

section \<open>The resolver\<close>

definition video_extensions :: "string list" where
  "video_extensions = [''.mp4'', ''.mkv'', ''.flv'', ''.mov'', ''.avi'', ''.ts'']"

definition is_video :: "string \<Rightarrow> bool" where
  "is_video filename = (\<exists>e \<in> set video_extensions. endswith (lower filename) e)"

text \<open>The loop of lines 148-153, which collects the pairs \<^verbatim>\<open>(filepath, mtime)\<close>.\<close>

fun scan_directory ::
  "'fs platform \<Rightarrow> json \<Rightarrow> string list \<Rightarrow> (string \<times> rat) list \<Rightarrow> exn + (string \<times> rat) list" where
  "scan_directory P recording_dir [] video_files = Inr video_files"
| "scan_directory P recording_dir (filename # rest) video_files =
     (if is_video filename then
        and_then (path_join P recording_dir filename) (\<lambda>filepath.
        and_then (getmtime P filepath) (\<lambda>mtime.
        scan_directory P recording_dir rest (video_files @ [(filepath, mtime)])))
      else scan_directory P recording_dir rest video_files)"

text \<open>\<^verbatim>\<open>abs(mtime - metadata_epoch) < 300\<close>, in binary64 arithmetic.\<close>

definition within_tolerance :: "rat \<Rightarrow> rat \<Rightarrow> bool" where
  "within_tolerance metadata_epoch mtime =
     float_less (float_abs (float_sub mtime metadata_epoch)) 300"

text \<open>\<^verbatim>\<open>video_files.sort(key=lambda x: x[1], reverse=True)\<close>: a stable sort, newest first.\<close>

definition newest_first :: "(string \<times> rat) list \<Rightarrow> (string \<times> rat) list" where
  "newest_first video_files = sort_key (\<lambda>x. - snd x) video_files"

text \<open>
  \<^verbatim>\<open>find_latest_video_file(recording_dir, metadata_timestamp)\<close>.  Both arguments come
  unconverted out of the metadata record.  The parse of the timestamp runs inside
  \<^verbatim>\<open>try ... except\<close>, which leaves \<^verbatim>\<open>metadata_time = None\<close>, and the scan of the
  directory inside \<^verbatim>\<open>try ... except Exception\<close>, which returns \<^verbatim>\<open>None\<close>;
  \<^verbatim>\<open>os.path.exists\<close> (line 132) and \<^verbatim>\<open>metadata_time.timestamp()\<close> (line 166) are outside
  every \<^verbatim>\<open>try\<close>, so what they raise leaves the function.
\<close>

definition find_latest_video_file :: "'fs platform \<Rightarrow> json \<Rightarrow> json \<Rightarrow> exn + string option" where
  "find_latest_video_file P recording_dir metadata_timestamp =
     (if \<not> truthy recording_dir then Inr None
      else
        and_then (path_exists P recording_dir) (\<lambda>ex.
        if \<not> ex then Inr None
        else
          let metadata_time = strptime P metadata_timestamp in
          case and_then (listdir P recording_dir) (\<lambda>names. scan_directory P recording_dir names []) of
            Inl e \<Rightarrow> Inr None
          | Inr video_files \<Rightarrow>
              if video_files = [] then Inr None
              else
                let sorted_files = newest_first video_files in
                case metadata_time of
                  None \<Rightarrow> Inr (Some (fst (hd sorted_files)))
                | Some t \<Rightarrow>
                    and_then (datetime_timestamp P t) (\<lambda>metadata_epoch.
                    case find (\<lambda>x. within_tolerance metadata_epoch (snd x)) sorted_files of
                      Some x \<Rightarrow> Inr (Some (fst x))
                    | None \<Rightarrow> Inr (Some (fst (hd sorted_files))))))"

section \<open>The emitter\<close>

text \<open>The float literals \<^verbatim>\<open>23.976\<close>, \<^verbatim>\<open>29.97\<close>, \<^verbatim>\<open>59.94\<close> and \<^verbatim>\<open>1.001\<close>.\<close>

definition ntsc_rates :: "pyfloat list" where
  "ntsc_rates = [to_double (23976 / 1000), to_double (2997 / 100), to_double (5994 / 100)]"

definition is_ntsc :: "pyfloat \<Rightarrow> bool" where
  "is_ntsc fps = (\<exists>x \<in> set ntsc_rates. float_eq fps x)"

text \<open>\<^verbatim>\<open>timebase = int(fps) if not ntsc else int(fps * 1.001)\<close>\<close>

definition timebase_of :: "pyfloat \<Rightarrow> exn + int" where
  "timebase_of fps =
     (if \<not> is_ntsc fps then int_of_float fps
      else int_of_float (float_mul fps (to_double (1001 / 1000))))"

text \<open>\<^verbatim>\<open>max(...)\<close> of a list of integers raises ValueError on the empty list.\<close>

fun py_max :: "int list \<Rightarrow> exn + int" where
  "py_max [] = Inl ValueError"
| "py_max (x # xs) = Inr (fold max xs x)"

definition rate_element :: "int \<Rightarrow> bool \<Rightarrow> xml" where
  "rate_element timebase ntsc =
     node ''rate'' [leaf ''timebase'' (str_int timebase),
                    leaf ''ntsc'' (if ntsc then ''TRUE'' else ''FALSE'')]"

text \<open>The body of the two marker loops (lines 305-314 and 342-351).\<close>

definition marker_element :: "pyfloat \<Rightarrow> marker \<Rightarrow> exn + xml" where
  "marker_element fps ts =
     and_then (ms_to_frames (timestamp_ms ts) fps) (\<lambda>frame.
     and_then (get_color_code (color ts)) (\<lambda>color_code.
     Inr (node ''marker''
       [Element ''comment'' [] (comment ts) [],
        Element ''name'' [] (name ts) [],
        leaf ''in'' (str_int frame),
        leaf ''out'' ''-1'',
        leaf ''pproColor'' color_code])))"

definition color_matte_effect :: xml where
  "color_matte_effect =
     node ''effect''
       [leaf ''name'' ''Color'',
        leaf ''effectid'' ''Color'',
        leaf ''effectcategory'' ''Matte'',
        leaf ''effecttype'' ''generator'',
        leaf ''mediatype'' ''video'',
        Element ''parameter'' [(''authoringApp'', ''PremierePro'')] JNull
          [leaf ''parameterid'' ''fillcolor'',
           leaf ''name'' ''Color'',
           node ''value''
             [leaf ''alpha'' ''0'', leaf ''red'' ''0'', leaf ''green'' ''0'', leaf ''blue'' ''0'']]]"

definition opacity_filter :: xml where
  "opacity_filter =
     node ''filter''
       [node ''effect''
          [leaf ''name'' ''Opacity'',
           leaf ''effectid'' ''opacity'',
           leaf ''effectcategory'' ''motion'',
           leaf ''effecttype'' ''motion'',
           leaf ''mediatype'' ''video'',
           Element ''parameter'' [(''authoringApp'', ''PremierePro'')] JNull
             [leaf ''parameterid'' ''opacity'',
              leaf ''name'' ''opacity'',
              leaf ''value'' ''0'']]]"

definition generator_item :: "int \<Rightarrow> xml \<Rightarrow> xml list \<Rightarrow> xml" where
  "generator_item duration rate markers =
     Element ''generatoritem'' [(''id'', ''clipitem-1'')] JNull
       ([leaf ''name'' ''OBS Marker Holder'',
         leaf ''enabled'' ''TRUE'',
         leaf ''duration'' (str_int duration),
         rate,
         leaf ''start'' ''0'',
         leaf ''end'' (str_int duration),
         leaf ''in'' ''0'',
         leaf ''out'' (str_int duration),
         leaf ''alphatype'' ''none'',
         color_matte_effect,
         opacity_filter] @ markers)"

definition video_element :: "int \<Rightarrow> xml \<Rightarrow> int \<Rightarrow> int \<Rightarrow> xml list \<Rightarrow> xml" where
  "video_element duration rate width height markers =
     node ''video''
       [node ''format''
          [node ''samplecharacteristics''
             [rate,
              node ''codec'' [leaf ''name'' ''Apple ProRes 422''],
              leaf ''width'' (str_int width),
              leaf ''height'' (str_int height),
              leaf ''anamorphic'' ''FALSE'',
              leaf ''pixelaspectratio'' ''square'',
              leaf ''fielddominance'' ''none'',
              leaf ''colordepth'' ''24'']],
        node ''track''
          [leaf ''enabled'' ''TRUE'',
           leaf ''locked'' ''FALSE'',
           generator_item duration rate markers]]"

definition audio_track :: "int \<Rightarrow> xml" where
  "audio_track i =
     node ''track''
       [leaf ''enabled'' ''TRUE'',
        leaf ''locked'' ''FALSE'',
        leaf ''outputchannelindex'' (str_int (i + 1))]"

definition audio_element :: xml where
  "audio_element =
     node ''audio''
       ([leaf ''numOutputChannels'' ''2'',
         node ''format''
           [node ''samplecharacteristics''
              [leaf ''depth'' ''16'', leaf ''samplerate'' ''48000'']]]
        @ map audio_track [0, 1])"

definition timecode_element :: "xml \<Rightarrow> xml" where
  "timecode_element rate =
     node ''timecode''
       [rate,
        leaf ''string'' ''00:00:00:00'',
        leaf ''frame'' ''0'',
        leaf ''displayformat'' ''NDF'']"

definition sequence_element ::
  "int \<Rightarrow> xml \<Rightarrow> string \<Rightarrow> int \<Rightarrow> int \<Rightarrow> xml list \<Rightarrow> xml list \<Rightarrow> xml" where
  "sequence_element duration rate sequence_name width height clip_markers sequence_markers =
     Element ''sequence'' [(''id'', ''sequence''), (''explodedTracks'', ''true'')] JNull
       ([leaf ''uuid'' ''obs-timestamp-markers-sequence'',
         leaf ''duration'' (str_int duration),
         rate,
         leaf ''name'' sequence_name,
         node ''media'' [video_element duration rate width height clip_markers, audio_element],
         timecode_element rate] @ sequence_markers)"

text \<open>
  Lines 192-351 of \<^verbatim>\<open>create_premiere_xml\<close>: the element tree, for a marker list that is
  not empty.  The exceptions come in the order of the code: \<^verbatim>\<open>int(fps)\<close>, \<^verbatim>\<open>max\<close>,
  the duration, the markers of the generator item, the markers of the sequence.
\<close>

definition premiere_tree ::
  "'fs platform \<Rightarrow> marker list \<Rightarrow> pyfloat \<Rightarrow> string option \<Rightarrow> int \<Rightarrow> int \<Rightarrow> exn + xml" where
  "premiere_tree P timestamps fps sequence_name width height =
     (let ntsc = is_ntsc fps in
      and_then (timebase_of fps) (\<lambda>timebase.
      let sequence_name' =
            (case sequence_name of
               None \<Rightarrow> ''OBS Markers ('' @ now_strftime P @ '')''
             | Some s \<Rightarrow> if s = [] then ''OBS Markers ('' @ now_strftime P @ '')'' else s) in
      and_then (py_max (map timestamp_ms timestamps)) (\<lambda>max_timestamp_ms.
      and_then (ms_to_frames (max_timestamp_ms + 60000) fps) (\<lambda>duration.
      and_then (traverse (marker_element fps) timestamps) (\<lambda>clip_markers.
      and_then (traverse (marker_element fps) timestamps) (\<lambda>sequence_markers.
      Inr (Element ''xmeml'' [(''version'', ''4'')] JNull
        [sequence_element duration (rate_element timebase ntsc) sequence_name' width height
           clip_markers sequence_markers])))))))"

text \<open>\<^verbatim>\<open>s.split('\n')\<close> and \<^verbatim>\<open>'\n'.join(ls)\<close>.\<close>

fun split_lines :: "string \<Rightarrow> string list" where
  "split_lines [] = [[]]"
| "split_lines (c # cs) =
     (if c = CHR 0x0A then [] # split_lines cs
      else case split_lines cs of [] \<Rightarrow> [[c]] | l # ls \<Rightarrow> (c # l) # ls)"

fun join_lines :: "string list \<Rightarrow> string" where
  "join_lines [] = []"
| "join_lines [l] = l"
| "join_lines (l # ls) = l @ CHR 0x0A # join_lines ls"

definition final_xml :: "string \<Rightarrow> string" where
  \<open>final_xml pretty_xml =
     ''<?xml version="1.0" encoding="UTF-8"?>'' @ [CHR 0x0A]
     @ ''<!DOCTYPE xmeml>'' @ [CHR 0x0A]
     @ join_lines (tl (split_lines pretty_xml))\<close>

text \<open>
  \<^verbatim>\<open>create_premiere_xml(timestamps, output_path, fps, sequence_name, width, height)\<close>:
  the result is the returned flag and the file system afterwards; an exception raised
  before the final \<^verbatim>\<open>try\<close> is not caught.
\<close>

definition create_premiere_xml ::
  "'fs platform \<Rightarrow> marker list \<Rightarrow> string \<Rightarrow> pyfloat \<Rightarrow> string option \<Rightarrow> int \<Rightarrow> int \<Rightarrow> 'fs
     \<Rightarrow> exn + (bool \<times> 'fs)" where
  "create_premiere_xml P timestamps output_path fps sequence_name width height fs =
     (if timestamps = [] then Inr (False, fs)
      else
        and_then (premiere_tree P timestamps fps sequence_name width height) (\<lambda>root.
        and_then (toprettyxml P root) (\<lambda>pretty_xml.
        Inr (write_file P output_path (final_xml pretty_xml) fs))))"

section \<open>The orchestrator\<close>

record args =
  arg_input :: string
  arg_output :: "string option"
  arg_fps :: pyfloat
  arg_sequence_name :: "string option"
  arg_width :: int
  arg_height :: int

text \<open>Lines 394-401 of \<^verbatim>\<open>main\<close>: the frame rate handed to the emitter.\<close>

definition main_fps :: "args \<Rightarrow> json \<Rightarrow> exn + pyfloat" where
  "main_fps a metadata =
     (if \<not> truthy metadata then Inr (arg_fps a)
      else
        and_then (py_in ''fps_num'' metadata) (\<lambda>has_num.
        if \<not> has_num then Inr (arg_fps a)
        else
          and_then (py_in ''fps_den'' metadata) (\<lambda>has_den.
          if \<not> has_den then Inr (arg_fps a)
          else
            and_then (py_getitem metadata ''fps_num'') (\<lambda>fps_num.
            and_then (py_getitem metadata ''fps_den'') (\<lambda>fps_den.
            py_truediv fps_num fps_den)))))"

text \<open>\<^verbatim>\<open>os.path.splitext(args.input)[0] + '_markers.xml'\<close>\<close>

definition input_stem_output :: "'fs platform \<Rightarrow> args \<Rightarrow> string" where
  "input_stem_output P a = splitext_root P (arg_input a) @ ''_markers.xml''"

text \<open>The value of \<^verbatim>\<open>output_file\<close> after \<^verbatim>\<open>if not output_file: output_file = ...\<close>, when it
  still holds \<^verbatim>\<open>args.output\<close>.\<close>

definition output_or_input_stem :: "'fs platform \<Rightarrow> args \<Rightarrow> string" where
  "output_or_input_stem P a =
     (case arg_output a of
        None \<Rightarrow> input_stem_output P a
      | Some out \<Rightarrow> if out = [] then input_stem_output P a else out)"

text \<open>Lines 403-433 of \<^verbatim>\<open>main\<close>: the path of the output file.\<close>

definition main_output_file :: "'fs platform \<Rightarrow> args \<Rightarrow> json \<Rightarrow> exn + string" where
  "main_output_file P a metadata =
     (if \<not> truthy metadata then Inr (output_or_input_stem P a)
      else
        and_then (py_in ''recording_path'' metadata) (\<lambda>has_path.
        if \<not> has_path then Inr (output_or_input_stem P a)
        else
          and_then (py_in ''timestamp'' metadata) (\<lambda>has_time.
          if \<not> has_time then Inr (output_or_input_stem P a)
          else
            and_then (py_getitem metadata ''recording_path'') (\<lambda>recording_dir.
            and_then (py_getitem metadata ''timestamp'') (\<lambda>recording_time.
            and_then (find_latest_video_file P recording_dir recording_time) (\<lambda>video_file.
            case video_file of
              None \<Rightarrow> Inr (output_or_input_stem P a)
            | Some v \<Rightarrow>
                if v = [] then Inr (output_or_input_stem P a)
                else
                  path_join P recording_dir
                    (splitext_root P (basename P v) @ ''_markers.xml'')))))))"

text \<open>Lines 440-443 of \<^verbatim>\<open>main\<close>: the line printed for a marker; only the exceptions
  of the formatting are kept.\<close>

definition display_marker :: "marker \<Rightarrow> exn + unit" where
  "display_marker ts =
     and_then (float_of_int (timestamp_ms ts)) (\<lambda>ms.
     and_then (float_truediv ms (Finite 1000)) (\<lambda>seconds.
     and_then (py_format (comment ts)) (\<lambda>_.
     py_format (if truthy (name ts) then name ts else JStr ''no name''))))"

text \<open>
  \<^verbatim>\<open>main\<close> up to the call of the emitter (lines 373-444): either the exit status of an
  early \<^verbatim>\<open>return\<close>, or the arguments \<^verbatim>\<open>(timestamps, output_file, fps)\<close> with which
  \<^verbatim>\<open>create_premiere_xml\<close> is called.
\<close>

definition main_before_emit ::
  "'fs platform \<Rightarrow> args \<Rightarrow> exn + (int + marker list \<times> string \<times> pyfloat)" where
  "main_before_emit P a =
     (case parse_timestamps P (arg_input a) of
        None \<Rightarrow> Inr (Inl 1)
      | Some (metadata, timestamps) \<Rightarrow>
          if timestamps = [] then Inr (Inl 1)
          else
            and_then (main_fps a metadata) (\<lambda>fps.
            and_then (main_output_file P a metadata) (\<lambda>output_file.
            and_then (traverse display_marker timestamps) (\<lambda>_.
            Inr (Inr (timestamps, output_file, fps))))))"

text \<open>\<^verbatim>\<open>main()\<close>: the exit status and the file system afterwards, or the exception that
  ends the program.\<close>

definition main :: "'fs platform \<Rightarrow> args \<Rightarrow> 'fs \<Rightarrow> exn + (int \<times> 'fs)" where
  "main P a fs =
     and_then (main_before_emit P a) (\<lambda>r.
     case r of
       Inl status \<Rightarrow> Inr (status, fs)
     | Inr (timestamps, output_file, fps) \<Rightarrow>
         and_then (create_premiere_xml P timestamps output_file fps
                     (arg_sequence_name a) (arg_width a) (arg_height a) fs) (\<lambda>(success, fs').
         Inr (if success then 0 else 1, fs')))"

section \<open>Notions used in the statements\<close>

text \<open>The value under the key \<^verbatim>\<open>metadata\<close> of the JSON object on a line, if the line holds
  one.\<close>

definition metadata_record :: "'fs platform \<Rightarrow> string \<Rightarrow> json option" where
  "metadata_record P l =
     (if strip l = [] then None
      else case json_loads P (strip l) of
        Inr (JDict kvs) \<Rightarrow> map_of kvs ''metadata''
      | _ \<Rightarrow> None)"

text \<open>Reading a document: the elements below an element, in document order; the first
  child with a tag; the element at the end of a path of tags, and its text.\<close>

fun descendants :: "xml \<Rightarrow> xml list" where
  "descendants (Element t a x cs) = Element t a x cs # concat (map descendants cs)"

definition elements_named :: "string \<Rightarrow> xml \<Rightarrow> xml list" where
  "elements_named t e = filter (\<lambda>d. tag d = t) (descendants e)"







text \<open>The recording directory and the video file resolved from the metadata, when the
  metadata names a recording path and a timestamp and a video file is found.\<close>

definition resolved_video :: "'fs platform \<Rightarrow> json \<Rightarrow> (json \<times> string) option" where
  "resolved_video P metadata =
     (case metadata of
        JDict kvs \<Rightarrow>
          (case (map_of kvs ''recording_path'', map_of kvs ''timestamp'') of
             (Some recording_dir, Some recording_time) \<Rightarrow>
               (case find_latest_video_file P recording_dir recording_time of
                  Inr (Some v) \<Rightarrow> if v = [] then None else Some (recording_dir, v)
                | _ \<Rightarrow> None)
           | _ \<Rightarrow> None)
      | _ \<Rightarrow> None)"

text \<open>A rate element with the given texts of its \<^verbatim>\<open>timebase\<close> and \<^verbatim>\<open>ntsc\<close> children.\<close>

definition rate_block :: "string \<Rightarrow> string \<Rightarrow> xml" where
  "rate_block timebase ntsc = node ''rate'' [leaf ''timebase'' timebase, leaf ''ntsc'' ntsc]"

definition start_marker :: marker where
  "start_marker = \<lparr>timestamp_ms = 0, comment = JStr ''start'', name = JStr [], color = JStr ''blue''\<rparr>"

section \<open>A platform and files for concrete runs\<close>

text \<open>
  A small platform on which the program can be run by rewriting: the JSON decoder is a
  table of the lines used below, the file system a map from paths to contents, the
  recording directory \<^verbatim>\<open>/rec\<close> holds two videos and a text file.  Two timestamps parse:
  the first of January 2024, which is 1704067200 seconds after the epoch (the time zone
  is UTC), and the first of January of year 1, for which \<^verbatim>\<open>timestamp()\<close> raises
  ValueError (year 0 is out of range).
\<close>

definition line_ntsc_metadata :: string where
  \<open>line_ntsc_metadata = ''{"metadata": {"fps_num": 30000, "fps_den": 1001}}''\<close>

definition line_other_metadata :: string where
  \<open>line_other_metadata = ''{"metadata": {"fps_num": 60, "fps_den": 1}}''\<close>

definition line_recording_metadata :: string where
  \<open>line_recording_metadata =
     ''{"metadata": {"recording_path": "/rec", "timestamp": "2024-01-01 00:00:00"}}''\<close>

definition line_start :: string where
  \<open>line_start = ''{"timestamp_ms": 0, "comment": "start"}''\<close>

definition line_negative :: string where
  \<open>line_negative = ''{"timestamp_ms": -5}''\<close>

definition line_numeric_color :: string where
  \<open>line_numeric_color = ''{"timestamp_ms": 1000, "color": 7}''\<close>

definition line_null_color :: string where
  \<open>line_null_color = ''{"timestamp_ms": 1000, "color": null}''\<close>

definition demo_json :: "(string \<times> json) list" where
  "demo_json =
    [(line_ntsc_metadata,
        JDict [(''metadata'', JDict [(''fps_num'', JInt 30000), (''fps_den'', JInt 1001)])]),
     (line_other_metadata,
        JDict [(''metadata'', JDict [(''fps_num'', JInt 60), (''fps_den'', JInt 1)])]),
     (line_recording_metadata,
        JDict [(''metadata'', JDict [(''recording_path'', JStr ''/rec''),
                                     (''timestamp'', JStr ''2024-01-01 00:00:00'')])]),
     (line_start, JDict [(''timestamp_ms'', JInt 0), (''comment'', JStr ''start'')]),
     (line_negative, JDict [(''timestamp_ms'', JInt (- 5))]),
     (line_numeric_color, JDict [(''timestamp_ms'', JInt 1000), (''color'', JInt 7)]),
     (line_null_color, JDict [(''timestamp_ms'', JInt 1000), (''color'', JNull)])]"

definition demo_files :: "(string \<times> string list) list" where
  "demo_files =
    [(''two_metadata.jsonl'', [line_ntsc_metadata, line_start, line_other_metadata]),
     (''ntsc.jsonl'', [line_ntsc_metadata, line_start]),
     (''recording.jsonl'', [line_recording_metadata, line_start]),
     (''plain.jsonl'', [line_start]),
     (''negative.jsonl'', [line_negative]),
     (''numeric_color.jsonl'', [line_numeric_color]),
     (''null_color.jsonl'', [line_null_color]),
     (''no_markers.jsonl'', [''not json'', line_other_metadata])]"

definition demo_mtimes :: "(string \<times> rat) list" where
  "demo_mtimes = [(''/rec/old.mp4'', 1704067100), (''/rec/new.mkv'', 1704070800)]"

definition demo_platform :: "(string \<rightharpoonup> string) platform" where
  \<open>demo_platform =
     \<lparr>json_loads = (\<lambda>s. case map_of demo_json s of None \<Rightarrow> Inl ValueError | Some d \<Rightarrow> Inr d),
      int_of_str = (\<lambda>s. None),
      read_lines = map_option (map (\<lambda>l. l @ [CHR 0x0A])) \<circ> map_of demo_files,
      path_exists = (\<lambda>d. case d of JStr s \<Rightarrow> Inr (s = ''/rec'') | _ \<Rightarrow> Inl TypeError),
      listdir = (\<lambda>d. case d of
         JStr s \<Rightarrow> if s = ''/rec'' then Inr [''old.mp4'', ''notes.txt'', ''new.mkv''] else Inl OtherError
       | _ \<Rightarrow> Inl TypeError),
      path_join = (\<lambda>d f. case d of JStr s \<Rightarrow> Inr (s @ ''/'' @ f) | _ \<Rightarrow> Inl TypeError),
      getmtime = (\<lambda>p. case map_of demo_mtimes p of None \<Rightarrow> Inl OtherError | Some t \<Rightarrow> Inr t),
      strptime = (\<lambda>t. if t = JStr ''2024-01-01 00:00:00'' then Some (Datetime 2024 1 1 0 0 0)
         else if t = JStr ''0001-01-01 00:00:00'' then Some (Datetime 1 1 1 0 0 0)
         else None),
      datetime_timestamp = (\<lambda>t. if t = Datetime 2024 1 1 0 0 0 then Inr 1704067200
         else Inl ValueError),
      basename = (\<lambda>p. rev (takeWhile (\<lambda>c. c \<noteq> CHR ''/'') (rev p))),
      splitext_root = (\<lambda>p. if CHR ''.'' \<in> set p then rev (tl (dropWhile (\<lambda>c. c \<noteq> CHR ''.'') (rev p))) else p),
      now_strftime = ''2024-01-01 00:00'',
      toprettyxml = (\<lambda>x. Inr (''<?xml version="1.0" ?>'' @ [CHR 0x0A] @ ''<'' @ tag x @ ''/>'')),
      write_file = (\<lambda>path content_text fs. (True, fs(path \<mapsto> content_text)))\<rparr>\<close>

definition demo_args :: args where
  "demo_args =
     \<lparr>arg_input = ''plain.jsonl'', arg_output = None, arg_fps = Finite 60,
      arg_sequence_name = None, arg_width = 1920, arg_height = 1080\<rparr>"

section \<open>Properties of the rounding\<close>

lemma pow2_powi: "pow2 k = power_int 2 k"
  by (simp add: pow2_def power_int_def field_simps)

lemma pow2_pos: "0 < pow2 k"
  by (simp add: pow2_powi)

lemma pow2_add: "pow2 (a + b) = pow2 a * pow2 b"
  by (simp add: pow2_powi power_int_add)

lemma pow2_mono: "a \<le> b \<Longrightarrow> pow2 a \<le> pow2 b"
  by (simp add: pow2_powi power_int_increasing)

lemma ilog2_bounds:
  assumes "0 < x"
  shows "pow2 (ilog2 x) \<le> x \<and> x < pow2 (ilog2 x + 1)"
proof -
  obtain p q where pq: "quotient_of x = (p, q)" by (cases "quotient_of x")
  have q: "0 < q" using pq quotient_of_denom_pos by blast
  have x: "x = of_int p / of_int q" using pq quotient_of_div by blast
  have p: "0 < p" using assms q x by (simp add: zero_less_divide_iff)
  define k where "k = bitlen p - bitlen q"
  have bp: "2 ^ nat (bitlen p - 1) \<le> p" "p < 2 ^ nat (bitlen p)"
    using bitlen_bounds[OF p] by auto
  have bq: "2 ^ nat (bitlen q - 1) \<le> q" "q < 2 ^ nat (bitlen q)"
    using bitlen_bounds[OF q] by auto
  have p1: "1 \<le> bitlen p" using p bitlen_eq_zero_iff[of p] bitlen_nonneg[of p] by linarith
  have q1: "1 \<le> bitlen q" using q bitlen_eq_zero_iff[of q] bitlen_nonneg[of q] by linarith
  have rp: "pow2 (bitlen p - 1) \<le> of_int p" "of_int p < pow2 (bitlen p)"
  proof -
    have "(of_int (2 ^ nat (bitlen p - 1)) :: rat) \<le> of_int p" using bp(1) of_int_le_iff by blast
    then show "pow2 (bitlen p - 1) \<le> of_int p" using p1 by (simp add: pow2_def)
    have "(of_int p :: rat) < of_int (2 ^ nat (bitlen p))" using bp(2) of_int_less_iff by blast
    then show "of_int p < pow2 (bitlen p)" using p1 by (simp add: pow2_def)
  qed
  have rq: "pow2 (bitlen q - 1) \<le> of_int q" "of_int q < pow2 (bitlen q)"
  proof -
    have "(of_int (2 ^ nat (bitlen q - 1)) :: rat) \<le> of_int q" using bq(1) of_int_le_iff by blast
    then show "pow2 (bitlen q - 1) \<le> of_int q" using q1 by (simp add: pow2_def)
    have "(of_int q :: rat) < of_int (2 ^ nat (bitlen q))" using bq(2) of_int_less_iff by blast
    then show "of_int q < pow2 (bitlen q)" using q1 by (simp add: pow2_def)
  qed
  have qpos: "(0::rat) < of_int q" using q by simp
  have up: "x < pow2 (k + 1)"
  proof -
    have "of_int p < pow2 (bitlen p)" by (rule rp)
    also have "\<dots> = pow2 (k + 1) * pow2 (bitlen q - 1)"
      by (simp add: k_def pow2_add[symmetric])
    also have "\<dots> \<le> pow2 (k + 1) * of_int q"
      using rq(1) pow2_pos[of "k + 1"] by (simp add: mult_left_mono)
    finally show ?thesis using qpos by (simp add: x pos_divide_less_eq)
  qed
  have lo: "pow2 (k - 1) < x"
  proof -
    have "pow2 (k - 1) * of_int q < pow2 (k - 1) * pow2 (bitlen q)"
      using rq(2) pow2_pos[of "k - 1"] by (simp add: mult_strict_left_mono)
    also have "\<dots> = pow2 (bitlen p - 1)"
      by (simp add: k_def pow2_add[symmetric])
    also have "\<dots> \<le> of_int p" by (rule rp)
    finally show ?thesis using qpos by (simp add: x pos_less_divide_eq)
  qed
  show ?thesis
  proof (cases "pow2 k \<le> x")
    case True
    then have "ilog2 x = k" by (simp add: ilog2_def pq k_def)
    then show ?thesis using True up by simp
  next
    case False
    then have "ilog2 x = k - 1" by (simp add: ilog2_def pq k_def)
    then show ?thesis using False lo by simp
  qed
qed

lemma ilog2_mono:
  assumes "0 < x" "x \<le> y"
  shows "ilog2 x \<le> ilog2 y"
proof (rule ccontr)
  assume "\<not> ilog2 x \<le> ilog2 y"
  then have "ilog2 y + 1 \<le> ilog2 x" by simp
  then have "pow2 (ilog2 y + 1) \<le> pow2 (ilog2 x)" by (rule pow2_mono)
  moreover have "y < pow2 (ilog2 y + 1)" using ilog2_bounds[of y] assms by simp
  moreover have "pow2 (ilog2 x) \<le> x" using ilog2_bounds[of x] assms by simp
  ultimately show False using assms by linarith
qed

lemma round_half_even_bounds:
  "x - 1 / 2 \<le> of_int (round_half_even x) \<and> of_int (round_half_even x) \<le> x + 1 / 2"
proof -
  define n where "n = \<lfloor>x\<rfloor>"
  have a: "of_int n \<le> x" "x < of_int n + 1" unfolding n_def by linarith+
  show ?thesis
    unfolding round_half_even_def Let_def n_def[symmetric] using a by auto
qed

lemma round_half_even_of_int [simp]: "round_half_even (of_int n) = n"
  by (simp add: round_half_even_def)

lemma round_half_even_mono:
  assumes "x \<le> y"
  shows "round_half_even x \<le> round_half_even y"
proof (rule ccontr)
  assume "\<not> ?thesis"
  then have lt: "round_half_even y + 1 \<le> round_half_even x" by simp
  then have "(of_int (round_half_even y) :: rat) + 1 \<le> of_int (round_half_even x)"
    by (metis of_int_1 of_int_add of_int_le_iff)
  moreover note round_half_even_bounds[of x] round_half_even_bounds[of y]
  ultimately have "x = y" using assms by linarith
  with lt show False by simp
qed


lemma round_binary64_minus: "round_binary64 (- x) = - round_binary64 x"
  by (simp add: round_binary64_def Let_def)

lemma round_binary64_nonneg: "0 \<le> x \<Longrightarrow> 0 \<le> round_binary64 x"
  using pow2_pos less_imp_le
  by (auto simp: round_binary64_def Let_def round_half_even_def zero_le_mult_iff
        intro!: divide_nonneg_nonneg)

lemma round_binary64_pos_eq:
  "0 < x \<Longrightarrow> round_binary64 x =
     of_int (round_half_even (x / pow2 (max (ilog2 x - 52) (- 1074)))) * pow2 (max (ilog2 x - 52) (- 1074))"
  by (simp add: round_binary64_def Let_def)

lemma round_binary64_mono_pos:
  assumes "0 < x" "x \<le> y"
  shows "round_binary64 x \<le> round_binary64 y"
proof -
  define ex where "ex = max (ilog2 x - 52) (- 1074)"
  define ey where "ey = max (ilog2 y - 52) (- 1074)"
  have y: "0 < y" using assms by simp
  have rx: "round_binary64 x = of_int (round_half_even (x / pow2 ex)) * pow2 ex"
    using assms(1) by (simp add: round_binary64_pos_eq ex_def)
  have ry: "round_binary64 y = of_int (round_half_even (y / pow2 ey)) * pow2 ey"
    using y by (simp add: round_binary64_pos_eq ey_def)
  have le: "ex \<le> ey" using ilog2_mono[OF assms] by (simp add: ex_def ey_def)
  show ?thesis
  proof (cases "ex = ey")
    case True
    have "x / pow2 ey \<le> y / pow2 ey"
      using assms(2) pow2_pos[of ey] by (simp add: divide_right_mono)
    then have "round_half_even (x / pow2 ey) \<le> round_half_even (y / pow2 ey)"
      by (rule round_half_even_mono)
    then show ?thesis using pow2_pos[of ey] by (simp add: rx ry True mult_right_mono)
  next
    case False
    then have lt: "ex + 1 \<le> ey" using le by simp
    then have eyn: "ey = ilog2 y - 52" by (simp add: ey_def ex_def)
    have "pow2 (ey + 52) \<le> y" using ilog2_bounds[OF y] by (simp add: eyn)
    then have "pow2 52 * pow2 ey \<le> y" by (simp add: pow2_add mult.commute)
    then have "pow2 52 \<le> y / pow2 ey" using pow2_pos[of ey] by (simp add: pos_le_divide_eq)
    then have "round_half_even (of_int (2 ^ 52)) \<le> round_half_even (y / pow2 ey)"
      by (intro round_half_even_mono) (simp add: pow2_def)
    then have "(2 ^ 52 :: int) \<le> round_half_even (y / pow2 ey)"
      by (simp only: round_half_even_of_int)
    then have "(of_int (2 ^ 52) :: rat) \<le> of_int (round_half_even (y / pow2 ey))"
      by (simp only: of_int_le_iff)
    then have "pow2 52 * pow2 ey \<le> round_binary64 y"
      using pow2_pos[of ey] by (simp add: ry pow2_def mult_right_mono)
    then have low: "pow2 (ey + 52) \<le> round_binary64 y" by (simp add: pow2_add mult.commute)
    have "ilog2 x + 1 \<le> ex + 53" by (simp add: ex_def)
    then have "pow2 (ilog2 x + 1) \<le> pow2 (ex + 53)" by (rule pow2_mono)
    then have "x \<le> pow2 53 * pow2 ex"
      using ilog2_bounds[OF assms(1)] by (simp add: pow2_add mult.commute)
    then have "x / pow2 ex \<le> pow2 53" using pow2_pos[of ex] by (simp add: pos_divide_le_eq)
    then have "round_half_even (x / pow2 ex) \<le> round_half_even (of_int (2 ^ 53))"
      by (intro round_half_even_mono) (simp add: pow2_def)
    then have "round_half_even (x / pow2 ex) \<le> 2 ^ 53"
      by (simp only: round_half_even_of_int)
    then have "(of_int (round_half_even (x / pow2 ex)) :: rat) \<le> of_int (2 ^ 53)"
      by (simp only: of_int_le_iff)
    then have "round_binary64 x \<le> pow2 53 * pow2 ex"
      using pow2_pos[of ex] by (simp add: rx pow2_def mult_right_mono)
    then have "round_binary64 x \<le> pow2 (ex + 53)" by (simp add: pow2_add mult.commute)
    also have "\<dots> \<le> pow2 (ey + 52)" using lt by (intro pow2_mono) simp
    finally show ?thesis using low by simp
  qed
qed

lemma round_binary64_mono:
  assumes "x \<le> y"
  shows "round_binary64 x \<le> round_binary64 y"
proof -
  consider "0 < x" | "x \<le> 0" "0 \<le> y" | "y < 0" by linarith
  then show ?thesis
  proof cases
    case 1
    then show ?thesis using assms by (rule round_binary64_mono_pos)
  next
    case 2
    have "round_binary64 x \<le> 0"
      using round_binary64_nonneg[of "- x"] 2(1) by (simp add: round_binary64_minus)
    moreover have "0 \<le> round_binary64 y" using 2(2) by (rule round_binary64_nonneg)
    ultimately show ?thesis by simp
  next
    case 3
    then have "round_binary64 (- y) \<le> round_binary64 (- x)"
      using assms by (intro round_binary64_mono_pos) simp_all
    then show ?thesis by (simp add: round_binary64_minus)
  qed
qed

lemma round_binary64_pow2:
  assumes "- 1074 \<le> k"
  shows "round_binary64 (pow2 k) = pow2 k"
proof -
  have b: "pow2 (ilog2 (pow2 k)) \<le> pow2 k" "pow2 k < pow2 (ilog2 (pow2 k) + 1)"
    using ilog2_bounds[OF pow2_pos[of k]] by auto
  have "ilog2 (pow2 k) = k"
  proof (rule antisym)
    show "ilog2 (pow2 k) \<le> k"
    proof (rule ccontr)
      assume "\<not> ?thesis"
      then have "pow2 (k + 1) \<le> pow2 (ilog2 (pow2 k))" by (intro pow2_mono) simp
      moreover have "pow2 (k + 1) = pow2 k * 2" using pow2_add[of k 1] by (simp add: pow2_def[of 1])
      then have "pow2 k < pow2 (k + 1)" using pow2_pos[of k] by simp
      ultimately show False using b(1) by linarith
    qed
    show "k \<le> ilog2 (pow2 k)"
    proof (rule ccontr)
      assume "\<not> ?thesis"
      then have "pow2 (ilog2 (pow2 k) + 1) \<le> pow2 k" by (intro pow2_mono) simp
      then show False using b(2) by linarith
    qed
  qed
  moreover define e where "e = max (k - 52) (- 1074)"
  ultimately have r: "round_binary64 (pow2 k) = of_int (round_half_even (pow2 k / pow2 e)) * pow2 e"
    using pow2_pos[of k] by (simp add: round_binary64_pos_eq)
  have "0 \<le> k - e" using assms by (simp add: e_def)
  have pe: "pow2 (k - e) = of_int (2 ^ nat (k - e))"
    using \<open>0 \<le> k - e\<close> by (simp add: pow2_def)
  have "pow2 k = pow2 (k - e) * pow2 e" by (simp add: pow2_add[symmetric])
  then have "pow2 k / pow2 e = pow2 (k - e)" using pow2_pos[of e] by simp
  then have "round_half_even (pow2 k / pow2 e) = 2 ^ nat (k - e)"
    by (simp only: pe round_half_even_of_int)
  then have "round_binary64 (pow2 k) = of_int (2 ^ nat (k - e)) * pow2 e"
    by (simp only: r)
  also have "\<dots> = pow2 (k - e) * pow2 e" by (simp only: pe)
  also have "\<dots> = pow2 k" by (simp add: pow2_add[symmetric])
  finally show ?thesis .
qed

lemma round_binary64_le_pow2:
  assumes "x \<le> pow2 k" "- 1074 \<le> k"
  shows "round_binary64 x \<le> pow2 k"
  using round_binary64_mono[OF assms(1)] round_binary64_pow2[OF assms(2)] by simp

lemma round_binary64_abs: "\<bar>round_binary64 x\<bar> = round_binary64 \<bar>x\<bar>"
proof (cases "0 \<le> x")
  case True
  then show ?thesis using round_binary64_nonneg[of x] by simp
next
  case False
  then have "0 \<le> round_binary64 (- x)" by (intro round_binary64_nonneg) simp
  then show ?thesis using False by (simp add: round_binary64_minus)
qed

lemma to_double_finite:
  assumes "\<bar>x\<bar> \<le> pow2 k" "- 1074 \<le> k" "k \<le> 1023"
  shows "to_double x = Finite (round_binary64 x)"
proof -
  have "\<bar>round_binary64 x\<bar> \<le> pow2 k"
    using round_binary64_le_pow2[OF assms(1,2)] by (simp add: round_binary64_abs)
  also have "\<dots> \<le> pow2 1023" using assms(3) by (rule pow2_mono)
  also have "\<dots> < 2 ^ 1024" by (simp add: pow2_def)
  finally show ?thesis by (simp add: to_double_def Let_def)
qed

lemma ms_to_frames_value:
  assumes "0 \<le> ms" "of_int ms \<le> pow2 a" "0 \<le> r" "r \<le> pow2 b" "0 \<le> a" "0 \<le> b" "a + b \<le> 1023"
  shows "ms_to_frames ms (Finite r) =
    Inr \<lfloor>round_binary64 (round_binary64 (round_binary64 (of_int ms) / 1000) * r)\<rfloor>"
proof -
  define x1 where "x1 = round_binary64 (of_int ms)"
  define x2 where "x2 = round_binary64 (x1 / 1000)"
  define x3 where "x3 = round_binary64 (x2 * r)"
  have ms: "(0::rat) \<le> of_int ms" using assms(1) by simp
  have x1: "0 \<le> x1" "x1 \<le> pow2 a"
    using round_binary64_nonneg[OF ms] round_binary64_le_pow2[OF assms(2)] assms(5)
    by (simp_all add: x1_def)
  have f1: "float_of_int ms = Inr (Finite x1)"
    using to_double_finite[of "of_int ms" a] ms assms by (simp add: float_of_int_def x1_def)
  have q: "0 \<le> x1 / 1000" "x1 / 1000 \<le> pow2 a" using x1 by simp_all
  have x2: "0 \<le> x2" "x2 \<le> pow2 a"
    using round_binary64_nonneg[OF q(1)] round_binary64_le_pow2[OF q(2)] assms(5)
    by (simp_all add: x2_def)
  have f2: "float_truediv (Finite x1) (Finite 1000) = Inr (Finite x2)"
    using to_double_finite[of "x1 / 1000" a] q assms by (simp add: x2_def)
  have p: "0 \<le> x2 * r" "x2 * r \<le> pow2 (a + b)"
    using x2 assms(3,4) by (simp_all add: pow2_add mult_mono)
  have x3: "0 \<le> x3" using round_binary64_nonneg[OF p(1)] by (simp add: x3_def)
  have f3: "float_mul (Finite x2) (Finite r) = Finite x3"
    using to_double_finite[of "x2 * r" "a + b"] p assms by (simp add: x3_def)
  have "ms_to_frames ms (Finite r) = Inr \<lfloor>x3\<rfloor>"
    using x3 by (simp add: ms_to_frames_def and_then_def f1 f2 f3 trunc_def
        del: float_truediv.simps float_mul.simps)
  then show ?thesis unfolding x3_def x2_def x1_def .
qed


lemma ilog2_eqI:
  assumes "pow2 k \<le> x" "x < pow2 (k + 1)"
  shows "ilog2 x = k"
proof -
  have x: "0 < x" using assms(1) pow2_pos[of k] by linarith
  have b: "pow2 (ilog2 x) \<le> x" "x < pow2 (ilog2 x + 1)"
    using ilog2_bounds[OF x] by auto
  show ?thesis
  proof (rule antisym)
    show "ilog2 x \<le> k"
    proof (rule ccontr)
      assume "\<not> ?thesis"
      then have "pow2 (k + 1) \<le> pow2 (ilog2 x)" by (intro pow2_mono) simp
      then show False using b(1) assms(2) by linarith
    qed
    show "k \<le> ilog2 x"
    proof (rule ccontr)
      assume "\<not> ?thesis"
      then have "pow2 (ilog2 x + 1) \<le> pow2 k" by (intro pow2_mono) simp
      then show False using b(2) assms(1) by linarith
    qed
  qed
qed

lemma round_half_even_eqI:
  assumes "\<bar>y - of_int m\<bar> < 1 / 2"
  shows "round_half_even y = m"
proof -
  have b: "y - 1 / 2 \<le> of_int (round_half_even y)" "of_int (round_half_even y) \<le> y + 1 / 2"
    using round_half_even_bounds[of y] by auto
  have "\<bar>(of_int (round_half_even y) :: rat) - of_int m\<bar> < 1" using assms b by linarith
  then have "\<bar>of_int (round_half_even y - m) :: rat\<bar> < of_int 1" by simp
  then have "\<bar>round_half_even y - m\<bar> < 1" by (simp only: of_int_abs[symmetric] of_int_less_iff)
  then show ?thesis by simp
qed

lemma to_double_eqI:
  assumes "pow2 k \<le> \<bar>x\<bar>" "\<bar>x\<bar> < pow2 (k + 1)" "- 1022 \<le> k" "k \<le> 1022"
    and "\<bar>\<bar>x\<bar> / pow2 (k - 52) - of_int m\<bar> < 1 / 2"
  shows "to_double x = Finite (sgn x * of_int m * pow2 (k - 52))"
proof -
  have x: "x \<noteq> 0" using assms(1) pow2_pos[of k] by auto
  have l: "ilog2 \<bar>x\<bar> = k" using assms(1,2) by (rule ilog2_eqI)
  have e: "max (k - 52) (- 1074) = k - 52" using assms(3) by simp
  have m: "round_half_even (\<bar>x\<bar> / pow2 (k - 52)) = m" using assms(5) by (rule round_half_even_eqI)
  have r: "round_binary64 x = sgn x * of_int m * pow2 (k - 52)"
    using x by (simp add: round_binary64_def Let_def l e m)
  have "\<bar>x\<bar> \<le> pow2 (k + 1)" using assms(2) by simp
  then have "to_double x = Finite (round_binary64 x)"
    using assms(3,4) by (intro to_double_finite[where k = "k + 1"]) simp_all
  then show ?thesis by (simp add: r)
qed

lemma round_half_even_tie:
  assumes "y = of_int n + 1 / 2"
  shows "round_half_even y = (if even n then n else n + 1)"
proof -
  have "\<lfloor>y\<rfloor> = n" unfolding assms by (subst floor_eq_iff) simp
  then show ?thesis by (simp add: round_half_even_def Let_def assms)
qed

lemma to_double_tieI:
  assumes "pow2 k \<le> \<bar>x\<bar>" "\<bar>x\<bar> < pow2 (k + 1)" "- 1022 \<le> k" "k \<le> 1022"
    and "\<bar>x\<bar> / pow2 (k - 52) = of_int n + 1 / 2"
  shows "to_double x = Finite (sgn x * of_int (if even n then n else n + 1) * pow2 (k - 52))"
proof -
  have x: "x \<noteq> 0" using assms(1) pow2_pos[of k] by auto
  have l: "ilog2 \<bar>x\<bar> = k" using assms(1,2) by (rule ilog2_eqI)
  have e: "max (k - 52) (- 1074) = k - 52" using assms(3) by simp
  have m: "round_half_even (\<bar>x\<bar> / pow2 (k - 52)) = (if even n then n else n + 1)"
    using assms(5) by (rule round_half_even_tie)
  have r: "round_binary64 x = sgn x * of_int (if even n then n else n + 1) * pow2 (k - 52)"
    using x by (simp only: round_binary64_def Let_def l e m if_False)
  have "\<bar>x\<bar> \<le> pow2 (k + 1)" using assms(2) by simp
  then have "to_double x = Finite (round_binary64 x)"
    using assms(3,4) by (intro to_double_finite[where k = "k + 1"]) simp_all
  then show ?thesis by (simp only: r)
qed

lemma trunc_eqI:
  assumes "(0 \<le> p \<and> of_int n \<le> p \<and> p < of_int n + 1) \<or> (p < 0 \<and> of_int n - 1 < p \<and> p \<le> of_int n)"
  shows "trunc p = n"
  using assms unfolding trunc_def by (auto; linarith)

lemma ms_to_frames_eval:
  assumes "to_double (of_int ms) = Finite a"
    and "to_double (a / 1000) = Finite s"
    and "to_double (s * r) = Finite p"
    and "(0 \<le> p \<and> of_int n \<le> p \<and> p < of_int n + 1) \<or> (p < 0 \<and> of_int n - 1 < p \<and> p \<le> of_int n)"
  shows "ms_to_frames ms (Finite r) = Inr n"
  using assms(1-3) trunc_eqI[OF assms(4)]
  by (simp add: ms_to_frames_def float_of_int_def and_then_def)

section \<open>The error of the rounding\<close>

lemma seconds_times_fps_zero: "seconds_times_fps 0 r = 0"
  by (simp add: seconds_times_fps_def round_binary64_def)

text \<open>In the normal range a rounding moves a value by at most the fraction \<open>2^-53\<close> of
  it.\<close>

lemma round_binary64_error_pos:
  assumes "pow2 (- 1022) \<le> x"
  shows "\<bar>round_binary64 x - x\<bar> \<le> x * pow2 (- 53)"
proof -
  have x: "0 < x" using assms pow2_pos[of "- 1022"] by linarith
  define e where "e = ilog2 x - 52"
  have "- 1022 \<le> ilog2 x"
  proof (rule ccontr)
    assume "\<not> ?thesis"
    then have "pow2 (ilog2 x + 1) \<le> pow2 (- 1022)" by (intro pow2_mono) simp
    then show False using ilog2_bounds[OF x] assms by linarith
  qed
  then have m: "max (ilog2 x - 52) (- 1074) = e" by (simp add: e_def)
  have r: "round_binary64 x = of_int (round_half_even (x / pow2 e)) * pow2 e"
    using x by (simp add: round_binary64_pos_eq m)
  have pe: "0 < pow2 e" by (rule pow2_pos)
  have "\<bar>of_int (round_half_even (x / pow2 e)) - x / pow2 e\<bar> \<le> 1 / 2"
    using round_half_even_bounds[of "x / pow2 e"] by linarith
  then have "\<bar>of_int (round_half_even (x / pow2 e)) - x / pow2 e\<bar> * pow2 e \<le> 1 / 2 * pow2 e"
    using pe by (intro mult_right_mono) simp_all
  moreover have "\<bar>of_int (round_half_even (x / pow2 e)) - x / pow2 e\<bar> * pow2 e
      = \<bar>round_binary64 x - x\<bar>"
  proof -
    have "\<bar>of_int (round_half_even (x / pow2 e)) - x / pow2 e\<bar> * pow2 e
      = \<bar>(of_int (round_half_even (x / pow2 e)) - x / pow2 e) * pow2 e\<bar>"
      using pe by (simp add: abs_mult)
    also have "(of_int (round_half_even (x / pow2 e)) - x / pow2 e) * pow2 e
      = round_binary64 x - x"
      using pe by (simp add: r left_diff_distrib)
    finally show ?thesis .
  qed
  ultimately have 1: "\<bar>round_binary64 x - x\<bar> \<le> 1 / 2 * pow2 e" by simp
  have "pow2 (e + 52) \<le> x" using ilog2_bounds[OF x] by (simp add: e_def)
  then have "pow2 (e + 52) * pow2 (- 53) \<le> x * pow2 (- 53)"
    using pow2_pos[of "- 53"] by (intro mult_right_mono) simp_all
  moreover have "pow2 (e + 52) * pow2 (- 53) = pow2 e * pow2 (- 1)"
    by (simp add: pow2_add[symmetric])
  moreover have "pow2 (- 1) = 1 / 2" by (simp add: pow2_def)
  ultimately have "1 / 2 * pow2 e \<le> x * pow2 (- 53)" by simp
  with 1 show ?thesis by linarith
qed


lemma round_binary64_rel:
  assumes "pow2 (- 1022) \<le> x"
  shows "x * (1 - pow2 (- 53)) \<le> round_binary64 x" and "round_binary64 x \<le> x * (1 + pow2 (- 53))"
  using round_binary64_error_pos[OF assms] by (simp_all add: algebra_simps abs_le_iff)

lemma seconds_times_fps_error:
  assumes "0 \<le> ms" and "0 < r" and "of_int ms / 1000 * r \<le> 2 ^ 50"
  shows "\<bar>seconds_times_fps ms r - of_int ms / 1000 * r\<bar> < 1"
proof (cases "ms = 0")
  case True
  then show ?thesis by (simp add: seconds_times_fps_zero)
next
  case False
  define u :: rat where "u = pow2 (- 53)"
  define M :: rat where "M = of_int ms / 1000"
  define E :: rat where "E = M * r"
  define x1 where "x1 = round_binary64 (of_int ms)"
  define q where "q = x1 / 1000"
  define x2 where "x2 = round_binary64 q"
  define x3 where "x3 = round_binary64 (x2 * r)"
  have u: "0 < u" "u < 1 / 4" by (simp_all add: u_def pow2_def)
  have u1: "0 \<le> 1 - u" "0 \<le> 1 + u" using u by simp_all
  have ms1: "(1 :: rat) \<le> of_int ms" using assms(1) False by (simp add: int_one_le_iff_zero_less)
  have small: "pow2 (- 1022) \<le> (1 :: rat) / 2000" by (simp add: pow2_def)
  have M0: "0 \<le> M" using assms(1) by (simp add: M_def)
  have E0: "0 \<le> E" using M0 assms(2) by (simp add: E_def)
  have n1: "pow2 (- 1022) \<le> (of_int ms :: rat)" using ms1 small by linarith
  have b1: "of_int ms * (1 - u) \<le> x1" "x1 \<le> of_int ms * (1 + u)"
    using round_binary64_rel[OF n1] by (simp_all add: x1_def u_def)
  have "(1 :: rat) / 2 \<le> 1 * (1 - u)" using u by simp
  also have "\<dots> \<le> of_int ms * (1 - u)" using ms1 u1 by (intro mult_right_mono)
  finally have x1h: "1 / 2 \<le> x1" using b1(1) by linarith
  then have n2: "pow2 (- 1022) \<le> q" using small by (simp add: q_def)
  have q1: "M * (1 - u) \<le> q" "q \<le> M * (1 + u)"
  proof -
    have "of_int ms * (1 - u) / 1000 \<le> x1 / 1000" using b1(1) by (intro divide_right_mono) simp_all
    then show "M * (1 - u) \<le> q" by (simp add: M_def q_def)
    have "x1 / 1000 \<le> of_int ms * (1 + u) / 1000" using b1(2) by (intro divide_right_mono) simp_all
    then show "q \<le> M * (1 + u)" by (simp add: M_def q_def)
  qed
  have b2: "q * (1 - u) \<le> x2" "x2 \<le> q * (1 + u)"
    using round_binary64_rel[OF n2] by (simp_all add: x2_def u_def)
  have q0: "0 \<le> q" using x1h by (simp add: q_def)
  have x2pos: "0 \<le> x2" unfolding x2_def using q0 by (rule round_binary64_nonneg)
  have lo2: "M * ((1 - u) * (1 - u)) \<le> x2"
  proof -
    have "M * (1 - u) * (1 - u) \<le> q * (1 - u)" using q1(1) u1(1) by (rule mult_right_mono)
    moreover have "M * (1 - u) * (1 - u) = M * ((1 - u) * (1 - u))" by (simp only: mult.assoc)
    ultimately show ?thesis using b2(1) by linarith
  qed
  have hi2: "x2 \<le> M * ((1 + u) * (1 + u))"
  proof -
    have "q * (1 + u) \<le> M * (1 + u) * (1 + u)" using q1(2) u1(2) by (rule mult_right_mono)
    moreover have "M * (1 + u) * (1 + u) = M * ((1 + u) * (1 + u))" by (simp only: mult.assoc)
    ultimately show ?thesis using b2(2) by linarith
  qed
  have r0: "0 \<le> r" using assms(2) by simp
  have lo2r: "E * ((1 - u) * (1 - u)) \<le> x2 * r"
  proof -
    have "M * ((1 - u) * (1 - u)) * r \<le> x2 * r" using lo2 r0 by (rule mult_right_mono)
    moreover have "M * ((1 - u) * (1 - u)) * r = E * ((1 - u) * (1 - u))"
      by (simp only: E_def mult.assoc mult.commute mult.left_commute)
    ultimately show ?thesis by simp
  qed
  have hi2r: "x2 * r \<le> E * ((1 + u) * (1 + u))"
  proof -
    have "x2 * r \<le> M * ((1 + u) * (1 + u)) * r" using hi2 r0 by (rule mult_right_mono)
    moreover have "M * ((1 + u) * (1 + u)) * r = E * ((1 + u) * (1 + u))"
      by (simp only: E_def mult.assoc mult.commute mult.left_commute)
    ultimately show ?thesis by simp
  qed
  have c1: "1 - 4 * u \<le> (1 - u) * (1 - u) * (1 - u)"
  proof -
    have "(1 - u) * (1 - u) * (1 - u) = 1 - 3 * u + u * u * (3 - u)" by (simp add: algebra_simps)
    moreover have "0 \<le> u * u * (3 - u)" using u by simp
    ultimately show ?thesis using u by linarith
  qed
  have c2: "(1 + u) * (1 + u) * (1 + u) \<le> 1 + 4 * u"
  proof -
    have "(1 + u) * (1 + u) * (1 + u) = 1 + 3 * u + u * (u * (3 + u))" by (simp add: algebra_simps)
    moreover have "u * (3 + u) \<le> 1" by (simp add: u_def pow2_def)
    then have "u * (u * (3 + u)) \<le> u * 1" using u by (intro mult_left_mono) simp_all
    ultimately show ?thesis by linarith
  qed
  have E4: "E * (4 * u) \<le> 1 / 2"
  proof -
    have "E \<le> 2 ^ 50" using assms(3) by (simp add: E_def M_def)
    then have "E * (4 * u) \<le> 2 ^ 50 * (4 * u)" using u by (intro mult_right_mono) simp_all
    also have "\<dots> = 1 / 2" by (simp add: u_def pow2_def)
    finally show ?thesis .
  qed
  have "\<bar>x3 - E\<bar> < 1"
  proof (cases "pow2 (- 1022) \<le> x2 * r")
    case True
    have b3: "x2 * r * (1 - u) \<le> x3" "x3 \<le> x2 * r * (1 + u)"
      using round_binary64_rel[OF True] by (simp_all add: x3_def u_def)
    have "E * ((1 - u) * (1 - u)) * (1 - u) \<le> x2 * r * (1 - u)"
      using lo2r u1(1) by (rule mult_right_mono)
    moreover have "E * ((1 - u) * (1 - u)) * (1 - u) = E * ((1 - u) * (1 - u) * (1 - u))"
      by (simp only: mult.assoc)
    moreover have "E * (1 - 4 * u) \<le> E * ((1 - u) * (1 - u) * (1 - u))"
      using c1 E0 by (rule mult_left_mono)
    moreover have "E * (1 - 4 * u) = E - E * (4 * u)" by (simp add: algebra_simps)
    ultimately have lo: "E - E * (4 * u) \<le> x3" using b3(1) by linarith
    have "x2 * r * (1 + u) \<le> E * ((1 + u) * (1 + u)) * (1 + u)"
      using hi2r u1(2) by (rule mult_right_mono)
    moreover have "E * ((1 + u) * (1 + u)) * (1 + u) = E * ((1 + u) * (1 + u) * (1 + u))"
      by (simp only: mult.assoc)
    moreover have "E * ((1 + u) * (1 + u) * (1 + u)) \<le> E * (1 + 4 * u)"
      using c2 E0 by (rule mult_left_mono)
    moreover have "E * (1 + 4 * u) = E + E * (4 * u)" by (simp add: algebra_simps)
    ultimately have hi: "x3 \<le> E + E * (4 * u)" using b3(2) by linarith
    show ?thesis using lo hi E4 by linarith
  next
    case False
    then have lt: "x2 * r \<le> pow2 (- 1022)" by simp
    have "x3 \<le> pow2 (- 1022)" unfolding x3_def using lt by (rule round_binary64_le_pow2) simp
    then have x3a: "x3 < 1 / 2" using small by linarith
    have "0 \<le> x2 * r" using x2pos r0 by simp
    then have x3b: "0 \<le> x3" unfolding x3_def by (rule round_binary64_nonneg)
    have "(1 - u) * (1 - u) = 1 - 2 * u + u * u" by (simp add: algebra_simps)
    moreover have "0 \<le> u * u" by simp
    ultimately have "(1 :: rat) / 2 \<le> (1 - u) * (1 - u)" using u by linarith
    then have "E * (1 / 2) \<le> E * ((1 - u) * (1 - u))" using E0 by (rule mult_left_mono)
    then have "E * (1 / 2) \<le> pow2 (- 1022)" using lo2r lt by linarith
    then have "E < 1" using small by linarith
    then show ?thesis using E0 x3a x3b by linarith
  qed
  then show ?thesis
    by (simp only: seconds_times_fps_def x3_def x2_def q_def x1_def E_def M_def)
qed

lemma floor_close:
  fixes a b :: rat
  assumes "\<bar>a - b\<bar> < 1"
  shows "\<bar>\<lfloor>a\<rfloor> - \<lfloor>b\<rfloor>\<bar> \<le> 1"
proof -
  have ab: "a \<le> b + 1" "b \<le> a + 1" using assms by linarith+
  have "\<lfloor>a\<rfloor> \<le> \<lfloor>b + 1\<rfloor>" using ab(1) by (rule floor_mono)
  moreover have "\<lfloor>b\<rfloor> \<le> \<lfloor>a + 1\<rfloor>" using ab(2) by (rule floor_mono)
  ultimately have "\<lfloor>a\<rfloor> \<le> \<lfloor>b\<rfloor> + 1" "\<lfloor>b\<rfloor> \<le> \<lfloor>a\<rfloor> + 1" by simp_all
  then show ?thesis by linarith
qed

section \<open>Frame conversion\<close>

lemma frames_2050_60_a: "to_double (of_int 2050) = Finite (2050)"
  using to_double_eqI[of "11" "of_int 2050" 4507997673881600]
  by (simp add: pow2_def)

lemma frames_2050_60_s: "to_double (2050 / 1000) = Finite (2308094809027379 / 1125899906842624)"
  using to_double_eqI[of "1" "2050 / 1000" 4616189618054758]
  by (simp add: pow2_def)

lemma frames_2050_60_p: "to_double ((2308094809027379 / 1125899906842624) * (60)) = Finite (8655355533852671 / 70368744177664)"
  using to_double_eqI[of "6" "(2308094809027379 / 1125899906842624) * (60)" 8655355533852671]
  by (simp add: pow2_def)

lemma frames_2050_60: "ms_to_frames 2050 (Finite (60)) = Inr 122"
  using ms_to_frames_eval[OF frames_2050_60_a frames_2050_60_s frames_2050_60_p, where n = "122"]
  by simp

lemma frames_1500_60_a: "to_double (of_int 1500) = Finite (1500)"
  using to_double_eqI[of "10" "of_int 1500" 6597069766656000]
  by (simp add: pow2_def)

lemma frames_1500_60_s: "to_double (1500 / 1000) = Finite (3 / 2)"
  using to_double_eqI[of "0" "1500 / 1000" 6755399441055744]
  by (simp add: pow2_def)

lemma frames_1500_60_p: "to_double ((3 / 2) * (60)) = Finite (90)"
  using to_double_eqI[of "6" "(3 / 2) * (60)" 6333186975989760]
  by (simp add: pow2_def)

lemma frames_1500_60: "ms_to_frames 1500 (Finite (60)) = Inr 90"
  using ms_to_frames_eval[OF frames_1500_60_a frames_1500_60_s frames_1500_60_p, where n = "90"]
  by simp

lemma frames_999_30_a: "to_double (of_int 999) = Finite (999)"
  using to_double_eqI[of "9" "of_int 999" 8787296929185792]
  by (simp add: pow2_def)

lemma frames_999_30_s: "to_double (999 / 1000) = Finite (8998192055486251 / 9007199254740992)"
  using to_double_eqI[of "- 1" "999 / 1000" 8998192055486251]
  by (simp add: pow2_def)

lemma frames_999_30_p: "to_double ((8998192055486251 / 9007199254740992) * (30)) = Finite (1054475631502295 / 35184372088832)"
  using to_double_eqI[of "4" "(8998192055486251 / 9007199254740992) * (30)" 8435805052018360]
  by (simp add: pow2_def)

lemma frames_999_30: "ms_to_frames 999 (Finite (30)) = Inr 29"
  using ms_to_frames_eval[OF frames_999_30_a frames_999_30_s frames_999_30_p, where n = "29"]
  by simp


text \<open>
  C1 (as stated): for every non-negative integer \<open>ms\<close> and positive \<open>fps\<close>,
  \<^verbatim>\<open>ms_to_frames(ms, fps)\<close> equals \<open>floor(ms/1000 * fps)\<close>.  The code computes the product
  in binary64 arithmetic: \<open>2050 / 1000.0\<close> is a double just below \<open>2.05\<close>, so that at
  60 frames per second the marker at 2050 ms lands on frame 122, not on frame 123.
\<close>

theorem ms_to_frames_exact_floor_counterexample:
  "ms_to_frames 2050 (Finite 60) = Inr 122 \<and> \<lfloor>(2050 :: rat) / 1000 * 60\<rfloor> = (123 :: int)"
proof -
  have "\<lfloor>(2050 :: rat) / 1000 * 60\<rfloor> = (123 :: int)" by simp
  then show ?thesis using frames_2050_60 by simp
qed

text \<open>
  C1 (amended): for every non-negative integer \<open>ms\<close> and positive \<open>fps\<close> (both below the
  overflow range), \<^verbatim>\<open>ms_to_frames(ms, fps)\<close> returns the floor of the binary64 value of
  \<^verbatim>\<open>(ms / 1000.0) * fps\<close> (truncating, not rounding), which is at most one away from
  \<open>floor(ms/1000 * fps)\<close> as long as \<open>ms/1000 * fps\<close> does not exceed \<open>2^50\<close>; in particular
  \<^verbatim>\<open>ms_to_frames(1500, 60) = 90\<close> and \<^verbatim>\<open>ms_to_frames(999, 30) = 29\<close>.
\<close>

theorem ms_to_frames_floor_of_double:
  assumes "0 \<le> ms" and "ms \<le> 2 ^ 512" and "0 < fps" and "fps \<le> 2 ^ 511"
  shows "ms_to_frames ms (Finite fps) = Inr \<lfloor>seconds_times_fps ms fps\<rfloor>
    \<and> (of_int ms / 1000 * fps \<le> 2 ^ 50 \<longrightarrow>
         \<bar>\<lfloor>seconds_times_fps ms fps\<rfloor> - \<lfloor>of_int ms / 1000 * fps\<rfloor>\<bar> \<le> 1)
    \<and> ms_to_frames 1500 (Finite 60) = Inr 90
    \<and> ms_to_frames 999 (Finite 30) = Inr 29"
proof -
  have "(of_int ms :: rat) \<le> of_int (2 ^ 512)" using assms(2) by (simp only: of_int_le_iff)
  then have a: "(of_int ms :: rat) \<le> pow2 512" by (simp add: pow2_def)
  have b: "fps \<le> pow2 511" using assms(4) by (simp add: pow2_def)
  have 1: "ms_to_frames ms (Finite fps) = Inr \<lfloor>seconds_times_fps ms fps\<rfloor>"
    unfolding seconds_times_fps_def
    using assms(1,3) a b by (intro ms_to_frames_value[where a = 512 and b = 511]) simp_all
  have 2: "of_int ms / 1000 * fps \<le> 2 ^ 50 \<longrightarrow>
         \<bar>\<lfloor>seconds_times_fps ms fps\<rfloor> - \<lfloor>of_int ms / 1000 * fps\<rfloor>\<bar> \<le> 1"
    using floor_close[OF seconds_times_fps_error[OF assms(1,3)]] by blast
  show ?thesis using 1 2 frames_1500_60 frames_999_30 by blast
qed

theorem ms_to_frames_floor_of_double_witness:
  "(0 :: int) \<le> 2050 \<and> (0 :: rat) < 60
    \<and> ms_to_frames 2050 (Finite 60) = Inr \<lfloor>seconds_times_fps 2050 60\<rfloor>
    \<and> \<bar>\<lfloor>seconds_times_fps 2050 60\<rfloor> - \<lfloor>of_int 2050 / 1000 * 60 :: rat\<rfloor>\<bar> \<le> 1"
  using ms_to_frames_floor_of_double[of 2050 60] by simp

section \<open>The parser\<close>

lemma parse_line_metadata_iff:
  assumes "parse_line P l \<noteq> Abort"
  shows "parse_line P l = Metadata m \<longleftrightarrow> metadata_record P l = Some m"
proof (cases "strip l = []")
  case True
  then show ?thesis by (simp add: parse_line_def metadata_record_def)
next
  case False
  show ?thesis
  proof (cases "json_loads P (strip l)")
    case (Inl e)
    then show ?thesis using False
      by (cases e) (simp_all add: parse_line_def metadata_record_def line_body_def and_then_def)
  next
    case (Inr data)
    show ?thesis
    proof (cases data)
      case (JDict kvs)
      show ?thesis
      proof (cases "map_of kvs ''metadata''")
        case None
        then show ?thesis using False Inr JDict
          by (auto simp: parse_line_def metadata_record_def line_body_def and_then_def
              split: option.splits sum.splits exn.splits if_splits)
      next
        case (Some v)
        then show ?thesis using False Inr JDict assms
          by (cases v) (auto simp: parse_line_def metadata_record_def line_body_def and_then_def)
      qed
    qed (use False Inr in \<open>auto simp: parse_line_def metadata_record_def line_body_def and_then_def
          split: option.splits sum.splits exn.splits if_splits\<close>)
  qed
qed

lemma parse_lines_metadata:
  "parse_lines P ls m0 ts0 = Some (m, ts) \<Longrightarrow>
     m = last (m0 # List.map_filter (metadata_record P) ls)"
proof (induction ls arbitrary: m0 ts0)
  case Nil
  then show ?case by (simp add: List.map_filter_simps)
next
  case (Cons l ls)
  from Cons.prems have na: "parse_line P l \<noteq> Abort" by (auto split: line_result.splits)
  show ?case
  proof (cases "parse_line P l")
    case (Metadata x)
    then have "metadata_record P l = Some x" using parse_line_metadata_iff[OF na] by simp
    moreover have "m = last (x # List.map_filter (metadata_record P) ls)"
      using Cons.prems Metadata Cons.IH by simp
    ultimately show ?thesis by (simp add: List.map_filter_simps)
  next
    case Skip
    then have "metadata_record P l = None"
      using parse_line_metadata_iff[OF na] by (cases "metadata_record P l") auto
    moreover have "m = last (m0 # List.map_filter (metadata_record P) ls)"
      using Cons.prems Skip Cons.IH by simp
    ultimately show ?thesis by (simp add: List.map_filter_simps)
  next
    case (Timestamp t)
    then have "metadata_record P l = None"
      using parse_line_metadata_iff[OF na] by (cases "metadata_record P l") auto
    moreover have "m = last (m0 # List.map_filter (metadata_record P) ls)"
      using Cons.prems Timestamp Cons.IH by simp
    ultimately show ?thesis by (simp add: List.map_filter_simps)
  next
    case Abort
    then show ?thesis using na by simp
  qed
qed

lemma parse_line_timestamp:
  assumes "parse_line P l = Timestamp t"
  shows "\<exists>kvs v. strip l \<noteq> [] \<and> json_loads P (strip l) = Inr (JDict kvs)
     \<and> map_of kvs ''metadata'' = None
     \<and> map_of kvs ''timestamp_ms'' = Some v
     \<and> py_int (int_of_str P) v = Inr (timestamp_ms t)
     \<and> comment t = (case map_of kvs ''comment'' of None \<Rightarrow> JStr [] | Some c \<Rightarrow> c)
     \<and> name t = (case map_of kvs ''name'' of None \<Rightarrow> JStr [] | Some c \<Rightarrow> c)
     \<and> color t = (case map_of kvs ''color'' of None \<Rightarrow> JStr ''blue'' | Some c \<Rightarrow> c)"
proof -
  have ne: "strip l \<noteq> []" using assms by (auto simp: parse_line_def)
  obtain data where d: "json_loads P (strip l) = Inr data"
    using assms ne
    by (cases "json_loads P (strip l)")
      (auto simp: parse_line_def line_body_def and_then_def split: exn.splits)
  show ?thesis
  proof (cases data)
    case (JDict kvs)
    then show ?thesis using assms ne d
      by (auto simp: parse_line_def line_body_def and_then_def
          split: option.splits sum.splits exn.splits if_splits)
  qed (use assms ne d in \<open>auto simp: parse_line_def line_body_def and_then_def
          split: option.splits sum.splits exn.splits if_splits\<close>)
qed

lemma parse_lines_timestamps:
  "parse_lines P ls m0 ts0 = Some (m, ts) \<Longrightarrow>
     ts = ts0 @ List.map_filter
       (\<lambda>l. case parse_line P l of Timestamp t \<Rightarrow> Some t | _ \<Rightarrow> None) ls"
proof (induction ls arbitrary: m0 ts0)
  case Nil
  then show ?case by simp
next
  case (Cons l ls)
  show ?case
  proof (cases "parse_line P l")
    case (Timestamp t)
    with Cons.prems have "parse_lines P ls m0 (ts0 @ [t]) = Some (m, ts)" by simp
    from Cons.IH[OF this] show ?thesis using Timestamp by simp
  next
    case Skip
    with Cons.prems have "parse_lines P ls m0 ts0 = Some (m, ts)" by simp
    from Cons.IH[OF this] show ?thesis using Skip by simp
  next
    case (Metadata x)
    with Cons.prems have "parse_lines P ls x ts0 = Some (m, ts)" by simp
    from Cons.IH[OF this] show ?thesis using Metadata by simp
  next
    case Abort
    with Cons.prems show ?thesis by simp
  qed
qed

lemma parse_lines_timestamp_line:
  assumes "parse_lines P ls m0 [] = Some (m, ts)" and "t \<in> set ts"
  shows "\<exists>l \<in> set ls. parse_line P l = Timestamp t"
proof -
  have "t \<in> set (List.map_filter
      (\<lambda>l. case parse_line P l of Timestamp t \<Rightarrow> Some t | _ \<Rightarrow> None) ls)"
    using parse_lines_timestamps[OF assms(1)] assms(2) by simp
  then show ?thesis
    by (auto simp: List.map_filter_def split: line_result.splits)
qed

lemma parse_line_marker:
  assumes "strip l \<noteq> []" and "json_loads P (strip l) = Inr (JDict kvs)"
    and "map_of kvs ''metadata'' = None"
    and "map_of kvs ''timestamp_ms'' = Some v"
    and "py_int (int_of_str P) v = Inr n"
  shows "parse_line P l = Timestamp
     \<lparr>timestamp_ms = n,
      comment = (case map_of kvs ''comment'' of None \<Rightarrow> JStr [] | Some x \<Rightarrow> x),
      name = (case map_of kvs ''name'' of None \<Rightarrow> JStr [] | Some x \<Rightarrow> x),
      color = (case map_of kvs ''color'' of None \<Rightarrow> JStr ''blue'' | Some x \<Rightarrow> x)\<rparr>"
  using assms by (simp add: parse_line_def line_body_def and_then_def)

lemma parse_lines_line_timestamp:
  assumes "parse_lines P ls m0 ts0 = Some (m, ts)"
    and "l \<in> set ls" and "parse_line P l = Timestamp t"
  shows "t \<in> set ts"
proof -
  have "t \<in> set (List.map_filter
      (\<lambda>l. case parse_line P l of Timestamp t \<Rightarrow> Some t | _ \<Rightarrow> None) ls)"
    using assms(2,3) by (force simp: List.map_filter_def)
  then show ?thesis using parse_lines_timestamps[OF assms(1)] by simp
qed

text \<open>The demonstration files, parsed.\<close>

lemmas demo_lines =
  line_ntsc_metadata_def line_other_metadata_def line_recording_metadata_def line_start_def
  line_negative_def line_numeric_color_def line_null_color_def

lemmas demo_parse =
  parse_timestamps_def parse_line_def line_body_def metadata_record_def and_then_def
  demo_platform_def demo_files_def demo_json_def demo_lines strip_def is_space_def

lemma parse_two_metadata:
  "parse_timestamps demo_platform ''two_metadata.jsonl'' =
     Some (JDict [(''fps_num'', JInt 60), (''fps_den'', JInt 1)],
           [\<lparr>timestamp_ms = 0, comment = JStr ''start'', name = JStr [], color = JStr ''blue''\<rparr>])"
  by (simp add: demo_parse)

lemma parse_negative:
  "parse_timestamps demo_platform ''negative.jsonl'' =
     Some (JDict [],
           [\<lparr>timestamp_ms = - 5, comment = JStr [], name = JStr [], color = JStr ''blue''\<rparr>])"
  by (simp add: demo_parse)

lemma parse_no_markers:
  "parse_timestamps demo_platform ''no_markers.jsonl'' =
     Some (JDict [(''fps_num'', JInt 60), (''fps_den'', JInt 1)], [])"
  by (simp add: demo_parse)

lemma parse_numeric_color:
  "parse_timestamps demo_platform ''numeric_color.jsonl'' =
     Some (JDict [],
           [\<lparr>timestamp_ms = 1000, comment = JStr [], name = JStr [], color = JInt 7\<rparr>])"
  by (simp add: demo_parse)

lemma parse_null_color:
  "parse_timestamps demo_platform ''null_color.jsonl'' =
     Some (JDict [],
           [\<lparr>timestamp_ms = 1000, comment = JStr [], name = JStr [], color = JNull\<rparr>])"
  by (simp add: demo_parse)

lemma parse_ntsc:
  "parse_timestamps demo_platform ''ntsc.jsonl'' =
     Some (JDict [(''fps_num'', JInt 30000), (''fps_den'', JInt 1001)],
           [\<lparr>timestamp_ms = 0, comment = JStr ''start'', name = JStr [], color = JStr ''blue''\<rparr>])"
  by (simp add: demo_parse)

lemma parse_recording:
  "parse_timestamps demo_platform ''recording.jsonl'' =
     Some (JDict [(''recording_path'', JStr ''/rec''), (''timestamp'', JStr ''2024-01-01 00:00:00'')],
           [\<lparr>timestamp_ms = 0, comment = JStr ''start'', name = JStr [], color = JStr ''blue''\<rparr>])"
  by (simp add: demo_parse)

lemma parse_plain:
  "parse_timestamps demo_platform ''plain.jsonl'' =
     Some (JDict [],
           [\<lparr>timestamp_ms = 0, comment = JStr ''start'', name = JStr [], color = JStr ''blue''\<rparr>])"
  by (simp add: demo_parse)

text \<open>
  C5 (as stated): if a file holds more than one record with a \<^verbatim>\<open>metadata\<close> key, only the
  first one is effective in the metadata the parser returns.  The loop assigns
  \<^verbatim>\<open>metadata = data['metadata']\<close> at every such record: in a file whose first line says
  30000/1001 and whose third line says 60/1, the parser returns 60/1.
\<close>

theorem first_metadata_effective_counterexample:
  "map_option (List.map_filter (metadata_record demo_platform))
       (read_lines demo_platform ''two_metadata.jsonl'')
     = Some [JDict [(''fps_num'', JInt 30000), (''fps_den'', JInt 1001)],
             JDict [(''fps_num'', JInt 60), (''fps_den'', JInt 1)]]
   \<and> map_option fst (parse_timestamps demo_platform ''two_metadata.jsonl'')
     = Some (JDict [(''fps_num'', JInt 60), (''fps_den'', JInt 1)])"
  by (simp add: parse_two_metadata) (simp add: demo_parse)

text \<open>
  C5 (amended): a record with a \<^verbatim>\<open>metadata\<close> key is treated as the metadata record
  regardless of its position in the file, and when the file holds more than one, the
  last metadata record encountered is the one in the parser's returned metadata (the
  empty dict when there is none).
\<close>

theorem parse_timestamps_last_metadata:
  assumes "read_lines P file_path = Some ls"
    and "parse_timestamps P file_path = Some (metadata, timestamps)"
  shows "metadata = last (JDict [] # List.map_filter (metadata_record P) ls)"
  using assms parse_lines_metadata[of P ls "JDict []" "[]" metadata timestamps]
  by (simp add: parse_timestamps_def)

theorem parse_timestamps_last_metadata_witness:
  "read_lines demo_platform ''two_metadata.jsonl''
     = Some (map (\<lambda>l. l @ [CHR 0x0A]) [line_ntsc_metadata, line_start, line_other_metadata])
   \<and> parse_timestamps demo_platform ''two_metadata.jsonl''
     = Some (JDict [(''fps_num'', JInt 60), (''fps_den'', JInt 1)],
           [\<lparr>timestamp_ms = 0, comment = JStr ''start'', name = JStr [], color = JStr ''blue''\<rparr>])
   \<and> JDict [(''fps_num'', JInt 60), (''fps_den'', JInt 1)]
     = last (JDict [] # List.map_filter (metadata_record demo_platform)
         (map (\<lambda>l. l @ [CHR 0x0A]) [line_ntsc_metadata, line_start, line_other_metadata]))"
proof -
  have r: "read_lines demo_platform ''two_metadata.jsonl''
     = Some (map (\<lambda>l. l @ [CHR 0x0A]) [line_ntsc_metadata, line_start, line_other_metadata])"
    by (simp add: demo_platform_def demo_files_def)
  from parse_timestamps_last_metadata[OF r parse_two_metadata] r parse_two_metadata
  show ?thesis by simp
qed

text \<open>
  C9 (as stated): every marker returned by \<^verbatim>\<open>parse_timestamps\<close> has a non-negative
  offset.  The parser converts the value with \<^verbatim>\<open>int(...)\<close> and never looks at its sign:
  the line \<^verbatim>\<open>{"timestamp_ms": -5}\<close> gives a marker at -5 ms.
\<close>

theorem marker_offset_nonnegative_counterexample:
  "map_option (map timestamp_ms \<circ> snd) (parse_timestamps demo_platform ''negative.jsonl'')
     = Some [- 5]"
  by (simp add: parse_negative)

text \<open>
  C9 (amended): every marker in the list returned by \<^verbatim>\<open>parse_timestamps\<close> has an integer
  millisecond offset, which is \<^verbatim>\<open>int(...)\<close> of the \<^verbatim>\<open>timestamp_ms\<close> value of a record of
  the file, of either sign.
\<close>

theorem parse_timestamps_offsets:
  assumes "read_lines P file_path = Some ls"
    and "parse_timestamps P file_path = Some (metadata, timestamps)"
  shows "\<forall>t \<in> set timestamps. \<exists>l \<in> set ls. \<exists>kvs v.
           json_loads P (strip l) = Inr (JDict kvs)
         \<and> map_of kvs ''timestamp_ms'' = Some v
         \<and> py_int (int_of_str P) v = Inr (timestamp_ms t)"
proof
  fix t assume t: "t \<in> set timestamps"
  have "parse_lines P ls (JDict []) [] = Some (metadata, timestamps)"
    using assms by (simp add: parse_timestamps_def)
  from parse_lines_timestamp_line[OF this t]
  obtain l where l: "l \<in> set ls" "parse_line P l = Timestamp t" by blast
  from parse_line_timestamp[OF l(2)] l(1)
  show "\<exists>l \<in> set ls. \<exists>kvs v.
           json_loads P (strip l) = Inr (JDict kvs)
         \<and> map_of kvs ''timestamp_ms'' = Some v
         \<and> py_int (int_of_str P) v = Inr (timestamp_ms t)"
    by blast
qed

theorem parse_timestamps_offsets_witness:
  "read_lines demo_platform ''negative.jsonl'' = Some [line_negative @ [CHR 0x0A]]
   \<and> parse_timestamps demo_platform ''negative.jsonl''
     = Some (JDict [],
           [\<lparr>timestamp_ms = - 5, comment = JStr [], name = JStr [], color = JStr ''blue''\<rparr>])
   \<and> (\<exists>kvs v. json_loads demo_platform (strip (line_negative @ [CHR 0x0A])) = Inr (JDict kvs)
         \<and> map_of kvs ''timestamp_ms'' = Some v
         \<and> py_int (int_of_str demo_platform) v = Inr (- 5))"
proof -
  have r: "read_lines demo_platform ''negative.jsonl'' = Some [line_negative @ [CHR 0x0A]]"
    by (simp add: demo_platform_def demo_files_def)
  from parse_timestamps_offsets[OF r parse_negative] r parse_negative
  show ?thesis by simp
qed

section \<open>Binary64 values used below\<close>

lemma lit_23_976: "to_double (23976 / 1000) = Finite (210895126300459 / 8796093022208)"
  using to_double_eqI[of "4" "23976 / 1000" 6748644041614688]
  by (simp add: pow2_def)

lemma lit_29_97: "to_double (2997 / 100) = Finite (1054475631502295 / 35184372088832)"
  using to_double_eqI[of "4" "2997 / 100" 8435805052018360]
  by (simp add: pow2_def)

lemma lit_59_94: "to_double (5994 / 100) = Finite (1054475631502295 / 17592186044416)"
  using to_double_eqI[of "5" "5994 / 100" 8435805052018360]
  by (simp add: pow2_def)


lemma frames_0_60: "ms_to_frames 0 (Finite 60) = Inr 0"
  by (simp add: ms_to_frames_def float_of_int_def and_then_def to_double_def round_binary64_def trunc_def)

lemma frames_1000_60_a: "to_double (of_int 1000) = Finite (1000)"
  using to_double_eqI[of "9" "of_int 1000" 8796093022208000]
  by (simp add: pow2_def)

lemma frames_1000_60_s: "to_double (1000 / 1000) = Finite (1)"
  using to_double_eqI[of "0" "1000 / 1000" 4503599627370496]
  by (simp add: pow2_def)

lemma frames_1000_60_p: "to_double ((1) * (60)) = Finite (60)"
  using to_double_eqI[of "5" "(1) * (60)" 8444249301319680]
  by (simp add: pow2_def)

lemma frames_1000_60: "ms_to_frames 1000 (Finite (60)) = Inr 60"
  using ms_to_frames_eval[OF frames_1000_60_a frames_1000_60_s frames_1000_60_p, where n = "60"]
  by simp





lemma frames_61000_60_a: "to_double (of_int 61000) = Finite (61000)"
  using to_double_eqI[of "15" "of_int 61000" 8383776161792000]
  by (simp add: pow2_def)

lemma frames_61000_60_s: "to_double (61000 / 1000) = Finite (61)"
  using to_double_eqI[of "5" "61000 / 1000" 8584986789675008]
  by (simp add: pow2_def)

lemma frames_61000_60_p: "to_double ((61) * (60)) = Finite (3660)"
  using to_double_eqI[of "11" "(61) * (60)" 8048425115320320]
  by (simp add: pow2_def)

lemma frames_61000_60: "ms_to_frames 61000 (Finite (60)) = Inr 3660"
  using ms_to_frames_eval[OF frames_61000_60_a frames_61000_60_s frames_61000_60_p, where n = "3660"]
  by simp





lemma ntsc_rates_values:
  "ntsc_rates = [Finite (210895126300459 / 8796093022208),
                 Finite (1054475631502295 / 35184372088832),
                 Finite (1054475631502295 / 17592186044416)]"
  by (simp only: ntsc_rates_def lit_23_976 lit_29_97 lit_59_94)

lemma is_ntsc_Finite:
  "is_ntsc (Finite r) \<longleftrightarrow>
     r = 210895126300459 / 8796093022208 \<or> r = 1054475631502295 / 35184372088832
     \<or> r = 1054475631502295 / 17592186044416"
  by (simp add: is_ntsc_def ntsc_rates_values)


lemma timebase_of_60: "timebase_of (Finite 60) = Inr 60"
  by (simp add: timebase_of_def is_ntsc_Finite trunc_def)

section \<open>The orchestrator and the emitter: failures\<close>

text \<open>
  C6: if parsing yields zero markers, the program exits with status 1 and the emitter is
  never invoked (\<open>main_before_emit\<close> ends with the early return, and the file system is
  the one \<open>main\<close> started with); and \<^verbatim>\<open>create_premiere_xml\<close> called with an empty
  marker list returns false and writes no file.
\<close>

theorem zero_markers_exit_status_1:
  assumes "parse_timestamps P (arg_input a) = Some (metadata, [])"
  shows "main_before_emit P a = Inr (Inl 1)
    \<and> main P a fs = Inr (1, fs)
    \<and> create_premiere_xml P [] output_path fps sequence_name width height fs = Inr (False, fs)"
  using assms by (simp add: main_before_emit_def main_def and_then_def create_premiere_xml_def)

theorem zero_markers_exit_status_1_witness:
  "parse_timestamps demo_platform (arg_input (demo_args\<lparr>arg_input := ''no_markers.jsonl''\<rparr>))
     = Some (JDict [(''fps_num'', JInt 60), (''fps_den'', JInt 1)], [])
   \<and> main_before_emit demo_platform (demo_args\<lparr>arg_input := ''no_markers.jsonl''\<rparr>) = Inr (Inl 1)
   \<and> main demo_platform (demo_args\<lparr>arg_input := ''no_markers.jsonl''\<rparr>) Map.empty
     = Inr (1, Map.empty)
   \<and> create_premiere_xml demo_platform [] ''out.xml'' (Finite 60) None 1920 1080 Map.empty
     = Inr (False, Map.empty)"
proof -
  have p: "parse_timestamps demo_platform (arg_input (demo_args\<lparr>arg_input := ''no_markers.jsonl''\<rparr>))
     = Some (JDict [(''fps_num'', JInt 60), (''fps_den'', JInt 1)], [])"
    by (simp add: parse_no_markers)
  from zero_markers_exit_status_1[OF p, of Map.empty "''out.xml''" "Finite 60" None 1920 1080] p
  show ?thesis by simp
qed

lemma traverse_Inl:
  assumes "x \<in> set xs" and "f x = Inl e"
  shows "\<exists>e'. traverse f xs = Inl e'"
  using assms
proof (induction xs)
  case Nil
  then show ?case by simp
next
  case (Cons y ys)
  show ?case
  proof (cases "f y")
    case (Inl a)
    then show ?thesis by (simp add: and_then_def)
  next
    case (Inr b)
    with Cons have "x \<in> set ys" by auto
    from Cons.IH[OF this Cons.prems(2)] Inr show ?thesis by (auto simp: and_then_def)
  qed
qed

lemma traverse_first_error:
  assumes "x \<in> set xs" and "f x = Inl e"
    and "\<forall>y \<in> set xs. f y = Inl e \<or> (\<exists>z. f y = Inr z)"
  shows "traverse f xs = Inl e"
  using assms
proof (induction xs)
  case Nil
  then show ?case by simp
next
  case (Cons y ys)
  show ?case
  proof (cases "f y")
    case (Inl a)
    with Cons.prems(3) have "a = e" by auto
    with Inl show ?thesis by (simp add: and_then_def)
  next
    case (Inr b)
    with Cons have "x \<in> set ys" by auto
    from Cons.IH[OF this Cons.prems(2)] Cons.prems(3) Inr show ?thesis
      by (auto simp: and_then_def)
  qed
qed

lemma get_color_code_not_str:
  assumes "\<forall>s. c \<noteq> JStr s"
  shows "get_color_code c = Inl AttributeError"
  using assms by (cases c) (simp_all add: get_color_code_def)

lemma get_color_code_str: "\<exists>code. get_color_code (JStr s) = Inr code"
  by (simp add: get_color_code_def COLOR_MAP_def)

lemma get_color_code_cases:
  "get_color_code c = Inl AttributeError \<or> (\<exists>code. get_color_code c = Inr code)"
proof (cases "\<exists>s. c = JStr s")
  case True
  then show ?thesis using get_color_code_str by auto
next
  case False
  then show ?thesis using get_color_code_not_str by auto
qed

lemma premiere_tree_color_not_str:
  assumes "t \<in> set timestamps" and "\<forall>s. color t \<noteq> JStr s"
  shows "\<exists>e. premiere_tree P timestamps fps sequence_name width height = Inl e"
proof -
  have "\<exists>e. marker_element fps t = Inl e"
    using get_color_code_not_str[OF assms(2)]
    by (cases "ms_to_frames (timestamp_ms t) fps") (simp_all add: marker_element_def and_then_def)
  then obtain e where "marker_element fps t = Inl e" ..
  from traverse_Inl[of t timestamps "marker_element fps" e, OF assms(1) this]
  obtain e' where e': "traverse (marker_element fps) timestamps = Inl e'" ..
  show ?thesis
    unfolding premiere_tree_def Let_def and_then_def
    by (simp add: e' split: sum.splits)
qed

lemma premiere_tree_AttributeError:
  assumes "t \<in> set timestamps" and "\<forall>s. color t \<noteq> JStr s"
    and "timebase_of fps = Inr timebase"
    and "ms_to_frames (fold max (map timestamp_ms (tl timestamps)) (timestamp_ms (hd timestamps)) + 60000) fps
           = Inr duration"
    and "\<forall>u \<in> set timestamps. \<exists>n. ms_to_frames (timestamp_ms u) fps = Inr n"
  shows "premiere_tree P timestamps fps sequence_name width height = Inl AttributeError"
proof -
  have m: "marker_element fps t = Inl AttributeError"
    using get_color_code_not_str[OF assms(2)] assms(1,5)
    by (auto simp: marker_element_def and_then_def)
  have "\<forall>u \<in> set timestamps.
      marker_element fps u = Inl AttributeError \<or> (\<exists>z. marker_element fps u = Inr z)"
  proof
    fix u assume "u \<in> set timestamps"
    with assms(5) obtain n where "ms_to_frames (timestamp_ms u) fps = Inr n" by blast
    then show "marker_element fps u = Inl AttributeError \<or> (\<exists>z. marker_element fps u = Inr z)"
      using get_color_code_cases[of "color u"] by (auto simp: marker_element_def and_then_def)
  qed
  from traverse_first_error[OF assms(1) m this]
  have tr: "traverse (marker_element fps) timestamps = Inl AttributeError" .
  obtain x xs where ts: "timestamps = x # xs" using assms(1) by (cases timestamps) auto
  show ?thesis
    using assms(3,4) tr unfolding premiere_tree_def Let_def and_then_def
    by (simp add: ts)
qed

lemma create_premiere_xml_Inl:
  assumes "premiere_tree P timestamps fps sequence_name width height = Inl e"
    and "timestamps \<noteq> []"
  shows "create_premiere_xml P timestamps output_path fps sequence_name width height fs = Inl e"
  using assms by (simp add: create_premiere_xml_def and_then_def)

lemma main_color_not_str:
  assumes "parse_timestamps P (arg_input a) = Some (metadata, timestamps)"
    and "t \<in> set timestamps" and "\<forall>s. color t \<noteq> JStr s"
  shows "\<exists>e. main P a fs = Inl e"
proof -
  have ne: "timestamps \<noteq> []" using assms(2) by auto
  have c: "\<exists>e. create_premiere_xml P timestamps out fps
      (arg_sequence_name a) (arg_width a) (arg_height a) fs = Inl e" for out fps
  proof -
    obtain e where "premiere_tree P timestamps fps (arg_sequence_name a) (arg_width a) (arg_height a) = Inl e"
      using premiere_tree_color_not_str[OF assms(2,3)] by blast
    from create_premiere_xml_Inl[OF this ne] show ?thesis by (rule exI)
  qed
  show ?thesis
  proof (cases "main_before_emit P a")
    case (Inl e)
    then show ?thesis by (simp add: main_def and_then_def)
  next
    case (Inr r)
    then obtain out fps where r: "r = Inr (timestamps, out, fps)"
      using assms(1) ne
      by (auto simp: main_before_emit_def and_then_def split: sum.splits)
    from c[of out fps] obtain e where "create_premiere_xml P timestamps out fps
      (arg_sequence_name a) (arg_width a) (arg_height a) fs = Inl e" ..
    then show ?thesis using Inr r by (simp add: main_def and_then_def)
  qed
qed

text \<open>
  C10: the parser stores a marker's \<^verbatim>\<open>color\<close> field unconverted, whatever JSON value it
  is: every record of the file with a \<^verbatim>\<open>timestamp_ms\<close> that \<^verbatim>\<open>int\<close> converts, no
  \<^verbatim>\<open>metadata\<close> key and a value under \<^verbatim>\<open>color\<close> gives a marker of the returned list with
  that value as its colour, and every colour in the list is the value found in a record
  (or \<^verbatim>\<open>'blue'\<close> when the key is absent).  When the value is not a string,
  \<^verbatim>\<open>get_color_code\<close> raises AttributeError (from \<^verbatim>\<open>.lower()\<close>),
  \<^verbatim>\<open>create_premiere_xml\<close> ends with an exception instead of returning a flag
  (AttributeError when the conversions before it succeed), and so does \<^verbatim>\<open>main\<close>.
\<close>

theorem color_not_string_crashes:
  assumes "read_lines P (arg_input a) = Some ls"
    and "parse_timestamps P (arg_input a) = Some (metadata, timestamps)"
    and "l \<in> set ls" and "strip l \<noteq> []"
    and "json_loads P (strip l) = Inr (JDict kvs)"
    and "map_of kvs ''metadata'' = None"
    and "map_of kvs ''timestamp_ms'' = Some v"
    and "py_int (int_of_str P) v = Inr n"
    and "map_of kvs ''color'' = Some c"
  shows "\<lparr>timestamp_ms = n,
       comment = (case map_of kvs ''comment'' of None \<Rightarrow> JStr [] | Some x \<Rightarrow> x),
       name = (case map_of kvs ''name'' of None \<Rightarrow> JStr [] | Some x \<Rightarrow> x),
       color = c\<rparr> \<in> set timestamps
    \<and> (\<forall>t \<in> set timestamps. \<exists>l \<in> set ls. \<exists>kvs. json_loads P (strip l) = Inr (JDict kvs)
          \<and> color t = (case map_of kvs ''color'' of None \<Rightarrow> JStr ''blue'' | Some x \<Rightarrow> x))
    \<and> ((\<forall>s. c \<noteq> JStr s) \<longrightarrow>
          get_color_code c = Inl AttributeError
        \<and> (\<exists>e. create_premiere_xml P timestamps output_path fps sequence_name width height fs
                = Inl e)
        \<and> (timebase_of fps = Inr timebase
            \<and> ms_to_frames (fold max (map timestamp_ms (tl timestamps))
                  (timestamp_ms (hd timestamps)) + 60000) fps = Inr duration
            \<and> (\<forall>u \<in> set timestamps. \<exists>k. ms_to_frames (timestamp_ms u) fps = Inr k)
            \<longrightarrow> create_premiere_xml P timestamps output_path fps sequence_name width height fs
                  = Inl AttributeError)
        \<and> (\<exists>e. main P a fs = Inl e))"
proof -
  let ?t = "\<lparr>timestamp_ms = n,
       comment = (case map_of kvs ''comment'' of None \<Rightarrow> JStr [] | Some x \<Rightarrow> x),
       name = (case map_of kvs ''name'' of None \<Rightarrow> JStr [] | Some x \<Rightarrow> x),
       color = c\<rparr>"
  have pl: "parse_lines P ls (JDict []) [] = Some (metadata, timestamps)"
    using assms(1,2) by (simp add: parse_timestamps_def)
  have "parse_line P l = Timestamp ?t"
    using parse_line_marker[OF assms(4,5,6,7,8)] assms(9) by simp
  from parse_lines_line_timestamp[OF pl assms(3) this]
  have t: "?t \<in> set timestamps" .
  have src: "\<forall>t \<in> set timestamps. \<exists>l \<in> set ls. \<exists>kvs. json_loads P (strip l) = Inr (JDict kvs)
          \<and> color t = (case map_of kvs ''color'' of None \<Rightarrow> JStr ''blue'' | Some x \<Rightarrow> x)"
  proof
    fix u assume "u \<in> set timestamps"
    from parse_lines_timestamp_line[OF pl this]
    obtain l' where l': "l' \<in> set ls" "parse_line P l' = Timestamp u" by blast
    from parse_line_timestamp[OF l'(2)] l'(1)
    show "\<exists>l \<in> set ls. \<exists>kvs. json_loads P (strip l) = Inr (JDict kvs)
          \<and> color u = (case map_of kvs ''color'' of None \<Rightarrow> JStr ''blue'' | Some x \<Rightarrow> x)"
      by blast
  qed
  have ne: "timestamps \<noteq> []" using t by auto
  have crash: "get_color_code c = Inl AttributeError
        \<and> (\<exists>e. create_premiere_xml P timestamps output_path fps sequence_name width height fs
                = Inl e)
        \<and> (timebase_of fps = Inr timebase
            \<and> ms_to_frames (fold max (map timestamp_ms (tl timestamps))
                  (timestamp_ms (hd timestamps)) + 60000) fps = Inr duration
            \<and> (\<forall>u \<in> set timestamps. \<exists>k. ms_to_frames (timestamp_ms u) fps = Inr k)
            \<longrightarrow> create_premiere_xml P timestamps output_path fps sequence_name width height fs
                  = Inl AttributeError)
        \<and> (\<exists>e. main P a fs = Inl e)"
    if c: "\<forall>s. c \<noteq> JStr s"
  proof -
    have ct: "\<forall>s. color ?t \<noteq> JStr s" using c by simp
    have 3: "\<exists>e. create_premiere_xml P timestamps output_path fps sequence_name width height fs
        = Inl e"
    proof -
      obtain e where "premiere_tree P timestamps fps sequence_name width height = Inl e"
        using premiere_tree_color_not_str[OF t ct] by blast
      from create_premiere_xml_Inl[OF this ne] show ?thesis by (rule exI)
    qed
    have 4: "timebase_of fps = Inr timebase
            \<and> ms_to_frames (fold max (map timestamp_ms (tl timestamps))
                  (timestamp_ms (hd timestamps)) + 60000) fps = Inr duration
            \<and> (\<forall>u \<in> set timestamps. \<exists>k. ms_to_frames (timestamp_ms u) fps = Inr k)
            \<longrightarrow> create_premiere_xml P timestamps output_path fps sequence_name width height fs
                  = Inl AttributeError"
    proof (intro impI, elim conjE)
      assume "timebase_of fps = Inr timebase"
        and "ms_to_frames (fold max (map timestamp_ms (tl timestamps))
                  (timestamp_ms (hd timestamps)) + 60000) fps = Inr duration"
        and "\<forall>u \<in> set timestamps. \<exists>k. ms_to_frames (timestamp_ms u) fps = Inr k"
      from premiere_tree_AttributeError[OF t ct this]
      have "premiere_tree P timestamps fps sequence_name width height = Inl AttributeError" .
      from create_premiere_xml_Inl[OF this ne]
      show "create_premiere_xml P timestamps output_path fps sequence_name width height fs
              = Inl AttributeError" .
    qed
    show ?thesis
      using get_color_code_not_str[OF c] 3 4 main_color_not_str[OF assms(2) t ct] by blast
  qed
  show ?thesis using t src crash by blast
qed

theorem color_not_string_crashes_witness:
  "read_lines demo_platform (arg_input (demo_args\<lparr>arg_input := ''null_color.jsonl''\<rparr>))
     = Some [line_null_color @ [CHR 0x0A]]
   \<and> parse_timestamps demo_platform (arg_input (demo_args\<lparr>arg_input := ''null_color.jsonl''\<rparr>))
     = Some (JDict [],
          [\<lparr>timestamp_ms = 1000, comment = JStr [], name = JStr [], color = JNull\<rparr>])
   \<and> strip (line_null_color @ [CHR 0x0A]) \<noteq> []
   \<and> json_loads demo_platform (strip (line_null_color @ [CHR 0x0A]))
       = Inr (JDict [(''timestamp_ms'', JInt 1000), (''color'', JNull)])
   \<and> py_int (int_of_str demo_platform) (JInt 1000) = Inr 1000
   \<and> get_color_code JNull = Inl AttributeError
   \<and> create_premiere_xml demo_platform
        [\<lparr>timestamp_ms = 1000, comment = JStr [], name = JStr [], color = JNull\<rparr>]
        ''out.xml'' (Finite 60) None 1920 1080 Map.empty = Inl AttributeError
   \<and> (\<exists>e. main demo_platform (demo_args\<lparr>arg_input := ''null_color.jsonl''\<rparr>) Map.empty = Inl e)
   \<and> parse_timestamps demo_platform ''numeric_color.jsonl''
     = Some (JDict [],
          [\<lparr>timestamp_ms = 1000, comment = JStr [], name = JStr [], color = JInt 7\<rparr>])
   \<and> get_color_code (JInt 7) = Inl AttributeError"
proof -
  let ?a = "demo_args\<lparr>arg_input := ''null_color.jsonl''\<rparr>"
  let ?m = "\<lparr>timestamp_ms = 1000, comment = JStr [], name = JStr [], color = JNull\<rparr>"
  let ?kvs = "[(''timestamp_ms'', JInt 1000), (''color'', JNull)]"
  have r: "read_lines demo_platform (arg_input ?a) = Some [line_null_color @ [CHR 0x0A]]"
    by (simp add: demo_platform_def demo_files_def)
  have p: "parse_timestamps demo_platform (arg_input ?a) = Some (JDict [], [?m])"
    by (simp add: parse_null_color)
  have l: "line_null_color @ [CHR 0x0A] \<in> set [line_null_color @ [CHR 0x0A]]" by simp
  have s: "strip (line_null_color @ [CHR 0x0A]) \<noteq> []"
    by (simp add: strip_def is_space_def line_null_color_def)
  have j: "json_loads demo_platform (strip (line_null_color @ [CHR 0x0A])) = Inr (JDict ?kvs)"
    by (simp add: demo_platform_def demo_json_def demo_lines strip_def is_space_def)
  have k1: "map_of ?kvs ''metadata'' = None" by simp
  have k2: "map_of ?kvs ''timestamp_ms'' = Some (JInt 1000)" by simp
  have k3: "py_int (int_of_str demo_platform) (JInt 1000) = Inr 1000" by simp
  have k4: "map_of ?kvs ''color'' = Some JNull" by simp
  have g: "get_color_code (JInt 7) = Inl AttributeError" by (simp add: get_color_code_def)
  from color_not_string_crashes[OF r p l s j k1 k2 k3 k4, where output_path = "''out.xml''"
      and fps = "Finite 60" and sequence_name = None and width = 1920 and height = 1080
      and fs = Map.empty and timebase = 60 and duration = 3660]
  show ?thesis
    using r p s j k3 g parse_numeric_color
    by (simp add: timebase_of_60 frames_61000_60 frames_1000_60)
qed

section \<open>The emitted document\<close>

lemma traverse_Inr:
  "traverse f xs = Inr ys \<Longrightarrow> list_all2 (\<lambda>x y. f x = Inr y) xs ys"
proof (induction xs arbitrary: ys)
  case Nil
  then show ?case by simp
next
  case (Cons x xs)
  then show ?case
    by (auto simp: and_then_def split: sum.splits)
qed

lemma marker_element_Inr:
  assumes "marker_element fps t = Inr m"
  shows "\<exists>frame code. ms_to_frames (timestamp_ms t) fps = Inr frame
      \<and> get_color_code (color t) = Inr code
      \<and> m = node ''marker''
         [Element ''comment'' [] (comment t) [], Element ''name'' [] (name t) [],
          leaf ''in'' (str_int frame), leaf ''out'' ''-1'', leaf ''pproColor'' code]"
  using assms by (auto simp: marker_element_def and_then_def split: sum.splits)

lemma markers_no_rate:
  assumes "list_all2 (\<lambda>t m. marker_element fps t = Inr m) ts ms"
  shows "concat (map (\<lambda>m. filter (\<lambda>d. tag d = ''rate'') (descendants m)) ms) = []"
  using assms
proof (induction rule: list_all2_induct)
  case Nil
  then show ?case by simp
next
  case (Cons t ts m ms)
  from marker_element_Inr[OF Cons.hyps(1)] Cons.IH show ?case
    by (auto simp: node_def leaf_def)
qed

lemma filter_concat: "filter Q (concat xss) = concat (map (filter Q) xss)"
  by (induction xss) auto

lemma premiere_tree_Inr:
  assumes "premiere_tree P timestamps fps sequence_name width height = Inr doc"
  shows "\<exists>timebase max_ms duration clip_markers sequence_markers nm.
      timebase_of fps = Inr timebase
    \<and> py_max (map timestamp_ms timestamps) = Inr max_ms
    \<and> ms_to_frames (max_ms + 60000) fps = Inr duration
    \<and> traverse (marker_element fps) timestamps = Inr clip_markers
    \<and> traverse (marker_element fps) timestamps = Inr sequence_markers
    \<and> doc = Element ''xmeml'' [(''version'', ''4'')] JNull
        [sequence_element duration (rate_element timebase (is_ntsc fps)) nm width height
           clip_markers sequence_markers]"
  using assms unfolding premiere_tree_def Let_def and_then_def
  by (auto split: sum.splits)

lemma rates_of_tree:
  assumes "list_all2 (\<lambda>t m. marker_element fps t = Inr m) ts cms"
    and "list_all2 (\<lambda>t m. marker_element fps t = Inr m) ts sms"
  shows "elements_named ''rate'' (Element ''xmeml'' [(''version'', ''4'')] JNull
        [sequence_element duration (rate_block tb nt) nm width height cms sms])
     = replicate 4 (rate_block tb nt)"
  by (simp add: markers_no_rate[OF assms(1)] markers_no_rate[OF assms(2)] elements_named_def sequence_element_def video_element_def generator_item_def
      audio_element_def audio_track_def timecode_element_def color_matte_effect_def
      opacity_filter_def rate_block_def node_def leaf_def filter_concat comp_def
      numeral_eq_Suc)

lemma rate_element_block:
  "rate_element timebase ntsc = rate_block (str_int timebase) (if ntsc then ''TRUE'' else ''FALSE'')"
  by (simp add: rate_element_def rate_block_def)

lemma create_premiere_xml_Inr:
  assumes "timestamps \<noteq> []"
    and "create_premiere_xml P timestamps output_path fps sequence_name width height fs = Inr (ok, fs')"
  shows "\<exists>doc pretty_xml. premiere_tree P timestamps fps sequence_name width height = Inr doc
     \<and> toprettyxml P doc = Inr pretty_xml
     \<and> (ok, fs') = write_file P output_path (final_xml pretty_xml) fs"
  using assms by (auto simp: create_premiere_xml_def and_then_def split: sum.splits)





lemma frames_0: "ms_to_frames 0 (Finite r) = Inr 0"
  by (simp add: ms_to_frames_def float_of_int_def and_then_def to_double_def round_binary64_def
      trunc_def)










lemma str_int_values:
  "str_int 0 = ''0''" "str_int 29 = ''29''" "str_int 60 = ''60''" "str_int 3600 = ''3600''"
  "str_int (- 60) = ''-60''" "str_int (- 1) = ''-1''"
  by (simp_all add: str_int_def digits.simps digit_char_def)

lemma get_color_code_blue: "get_color_code (JStr ''blue'') = Inr ''4294741314''"
  by (simp add: get_color_code_def COLOR_MAP_def lower_def lower_char_def)

lemma marker_element_start:
  assumes "ms_to_frames 0 fps = Inr frame"
  shows "marker_element fps start_marker =
     Inr (node ''marker''
       [Element ''comment'' [] (JStr ''start'') [], Element ''name'' [] (JStr []) [],
        leaf ''in'' (str_int frame), leaf ''out'' ''-1'', leaf ''pproColor'' ''4294741314''])"
  using assms by (simp add: marker_element_def start_marker_def and_then_def get_color_code_blue)

lemma premiere_tree_start:
  assumes "timebase_of fps = Inr timebase"
    and "ms_to_frames 60000 fps = Inr duration"
    and "ms_to_frames 0 fps = Inr frame"
  shows "premiere_tree demo_platform [start_marker] fps None width height =
     Inr (Element ''xmeml'' [(''version'', ''4'')] JNull
       [sequence_element duration (rate_element timebase (is_ntsc fps))
          ''OBS Markers (2024-01-01 00:00)'' width height
          [node ''marker''
            [Element ''comment'' [] (JStr ''start'') [], Element ''name'' [] (JStr []) [],
             leaf ''in'' (str_int frame), leaf ''out'' ''-1'', leaf ''pproColor'' ''4294741314'']]
          [node ''marker''
            [Element ''comment'' [] (JStr ''start'') [], Element ''name'' [] (JStr []) [],
             leaf ''in'' (str_int frame), leaf ''out'' ''-1'', leaf ''pproColor'' ''4294741314'']]])"
proof -
  have "timestamp_ms start_marker + 60000 = 60000" by (simp add: start_marker_def)
  then show ?thesis
    using assms unfolding premiere_tree_def Let_def
    by (simp add: and_then_def marker_element_start[OF assms(3)])
      (simp add: demo_platform_def)
qed



lemma create_premiere_xml_start:
  assumes "timebase_of fps = Inr timebase"
    and "ms_to_frames 60000 fps = Inr duration"
    and "ms_to_frames 0 fps = Inr frame"
  shows "create_premiere_xml demo_platform [start_marker] output_path fps None width height fs
     = Inr (True, fs(output_path \<mapsto> final_xml (''<?xml version='' @ [CHR 0x22] @ ''1.0''
         @ [CHR 0x22] @ '' ?>'' @ [CHR 0x0A] @ ''<xmeml/>'')))"
  by (simp add: create_premiere_xml_def and_then_def premiere_tree_start[OF assms])
    (simp add: demo_platform_def)










lemma to_double_Finite:
  assumes "to_double x = Finite y"
  shows "y = round_binary64 x"
  using assms by (simp add: to_double_def Let_def split: if_splits)











section \<open>The resolver\<close>


lemma double_300_tie: "to_double (300 - 1 / 2 ^ 45) = Finite 300"
  using to_double_tieI[of "8" "300 - 1 / 2 ^ 45" 5277655813324799]
  by (simp add: pow2_def)

text \<open>
  The test \<^verbatim>\<open>abs(mtime - metadata_epoch) < 300\<close> of the code, in exact arithmetic: the
  difference is rounded to binary64 before it is compared, the binary64 value just below
  300 is \<open>300 - 2\<^sup>-\<^sup>4\<^sup>4\<close>, and the midpoint \<open>300 - 2\<^sup>-\<^sup>4\<^sup>5\<close> rounds to 300.  So the test
  holds exactly when the distance is below \<open>300 - 2\<^sup>-\<^sup>4\<^sup>5\<close>; a file 300 seconds or more
  away never passes, and for times on a grid of \<open>2\<^sup>-\<^sup>4\<^sup>4\<close> seconds (whole seconds, or the
  binary64 times of this century against a whole second) the test is \<open>distance < 300\<close>.
\<close>

lemma round_binary64_less_300:
  assumes "0 \<le> x"
  shows "round_binary64 x < 300 \<longleftrightarrow> x < 300 - 1 / 2 ^ 45"
proof
  assume lt: "x < 300 - 1 / 2 ^ 45"
  show "round_binary64 x < 300"
  proof (cases "x < 256")
    case True
    have "x \<le> pow2 8" using True by (simp add: pow2_def)
    from round_binary64_le_pow2[OF this] have "round_binary64 x \<le> pow2 8" by simp
    then show ?thesis by (simp add: pow2_def)
  next
    case False
    have p: "0 < x" using False by simp
    have "pow2 8 \<le> x" "x < pow2 (8 + 1)" using False lt by (simp_all add: pow2_def)
    then have k: "ilog2 x = 8" by (rule ilog2_eqI)
    define m where "m = round_half_even (x / pow2 (- 44))"
    have r: "round_binary64 x = of_int m * pow2 (- 44)"
      using round_binary64_pos_eq[OF p] by (simp add: k m_def)
    have "of_int m \<le> x / pow2 (- 44) + 1 / 2"
      using round_half_even_bounds[of "x / pow2 (- 44)"] by (simp add: m_def)
    also have "x / pow2 (- 44) = x * 2 ^ 44" by (simp add: pow2_def)
    also have "x * 2 ^ 44 + 1 / 2 < (300 - 1 / 2 ^ 45) * 2 ^ 44 + 1 / 2" using lt by simp
    also have "(300 - 1 / 2 ^ 45) * 2 ^ 44 + 1 / 2 = (300 * 2 ^ 44 :: rat)" by simp
    finally have "(of_int m :: rat) < 300 * 2 ^ 44" .
    then have "of_int m * pow2 (- 44) < (300 * 2 ^ 44) * pow2 (- 44)"
      using pow2_pos[of "- 44"] by (simp only: mult_strict_right_mono)
    also have "(300 * 2 ^ 44) * pow2 (- 44) = 300" by (simp add: pow2_def)
    finally show ?thesis by (simp only: r)
  qed
next
  assume lt: "round_binary64 x < 300"
  show "x < 300 - 1 / 2 ^ 45"
  proof (rule ccontr)
    assume "\<not> x < 300 - 1 / 2 ^ 45"
    then have "300 - 1 / 2 ^ 45 \<le> x" by simp
    then have "round_binary64 (300 - 1 / 2 ^ 45) \<le> round_binary64 x"
      by (rule round_binary64_mono)
    moreover have "round_binary64 (300 - 1 / 2 ^ 45) = 300"
      using to_double_Finite[OF double_300_tie] by simp
    ultimately show False using lt by simp
  qed
qed

lemma within_tolerance_iff:
  "within_tolerance metadata_epoch mtime \<longleftrightarrow> \<bar>mtime - metadata_epoch\<bar> < 300 - 1 / 2 ^ 45"
proof -
  have a: "\<bar>round_binary64 (mtime - metadata_epoch)\<bar> = round_binary64 \<bar>mtime - metadata_epoch\<bar>"
    by (rule round_binary64_abs)
  have "within_tolerance metadata_epoch mtime
      \<longleftrightarrow> round_binary64 \<bar>mtime - metadata_epoch\<bar> < 300"
  proof (cases "2 ^ 1024 \<le> \<bar>round_binary64 (mtime - metadata_epoch)\<bar>")
    case True
    have "(300 :: rat) \<le> 2 ^ 1024" by simp
    then have "\<not> round_binary64 \<bar>mtime - metadata_epoch\<bar> < 300" using True a by linarith
    moreover have "\<not> within_tolerance metadata_epoch mtime"
      using True by (simp add: within_tolerance_def float_sub_def to_double_def Let_def)
    ultimately show ?thesis by simp
  next
    case False
    then show ?thesis
      using a by (simp add: within_tolerance_def float_sub_def to_double_def Let_def)
  qed
  then show ?thesis using round_binary64_less_300[of "\<bar>mtime - metadata_epoch\<bar>"] by simp
qed









lemma find_latest_video_file_eq:
  assumes "truthy recording_dir"
    and "path_exists P recording_dir = Inr True"
    and "listdir P recording_dir = Inr names"
    and "scan_directory P recording_dir names [] = Inr video_files"
    and "video_files \<noteq> []"
    and "strptime P metadata_timestamp = Some t"
  shows "find_latest_video_file P recording_dir metadata_timestamp =
      and_then (datetime_timestamp P t) (\<lambda>metadata_epoch.
        Inr (Some (fst (case find (\<lambda>x. \<bar>snd x - metadata_epoch\<bar> < 300 - 1 / 2 ^ 45)
                               (newest_first video_files) of
                          Some x \<Rightarrow> x
                        | None \<Rightarrow> hd (newest_first video_files)))))"
  using assms
  by (simp add: find_latest_video_file_def and_then_def Let_def within_tolerance_iff
      split: option.splits sum.splits)


lemma demo_scan:
  "scan_directory demo_platform (JStr ''/rec'') [''old.mp4'', ''notes.txt'', ''new.mkv''] []
     = Inr [(''/rec/old.mp4'', 1704067100), (''/rec/new.mkv'', 1704070800)]"
  by (simp add: is_video_def video_extensions_def endswith_def lower_def lower_char_def
      and_then_def demo_platform_def demo_mtimes_def)

lemma demo_newest_first:
  "newest_first [(''/rec/old.mp4'', 1704067100), (''/rec/new.mkv'', 1704070800)]
     = [(''/rec/new.mkv'', 1704070800), (''/rec/old.mp4'', 1704067100)]"
  by (simp add: newest_first_def sort_key_def)




section \<open>The orchestrator: frame rate and output path\<close>

lemma fps_30000_1001: "to_double (30000 / 1001) = Finite (1054476685978981 / 35184372088832)"
  using to_double_eqI[of "4" "30000 / 1001" 8435813487831848]
  by (simp add: pow2_def)

lemma frames_60000_ntsc_a: "to_double (of_int 60000) = Finite (60000)"
  using to_double_eqI[of "15" "of_int 60000" 8246337208320000]
  by (simp add: pow2_def)

lemma frames_60000_ntsc_s: "to_double (60000 / 1000) = Finite (60)"
  using to_double_eqI[of "5" "60000 / 1000" 8444249301319680]
  by (simp add: pow2_def)

lemma frames_60000_ntsc_p: "to_double ((60) * (1054476685978981 / 35184372088832)) = Finite (3954287572421179 / 2199023255552)"
  using to_double_tieI[of "10" "(60) * (1054476685978981 / 35184372088832)" 7908575144842357]
  by (simp add: pow2_def)

lemma frames_60000_ntsc: "ms_to_frames 60000 (Finite (1054476685978981 / 35184372088832)) = Inr 1798"
  using ms_to_frames_eval[OF frames_60000_ntsc_a frames_60000_ntsc_s frames_60000_ntsc_p, where n = "1798"]
  by simp


lemma parse_line_metadata_dict:
  assumes "parse_line P l = Metadata m"
  shows "\<exists>kvs. m = JDict kvs"
proof -
  have ne: "strip l \<noteq> []" using assms by (auto simp: parse_line_def)
  then have "line_body P (strip l) = Inr (Metadata m)"
    using assms
    by (cases "line_body P (strip l)") (auto simp: parse_line_def split: exn.splits)
  then obtain v where "dict_get m ''recording_path'' (JStr ''N/A'') = Inr v"
    by (auto simp: line_body_def and_then_def split: option.splits sum.splits if_splits)
  then show ?thesis by (cases m) simp_all
qed

lemma parse_lines_metadata_dict:
  "parse_lines P ls m0 ts0 = Some (m, ts) \<Longrightarrow> \<exists>kvs. m0 = JDict kvs \<Longrightarrow> \<exists>kvs. m = JDict kvs"
proof (induction ls arbitrary: m0 ts0)
  case Nil
  then show ?case by simp
next
  case (Cons l ls)
  show ?case
  proof (cases "parse_line P l")
    case (Metadata x)
    with Cons.prems have "parse_lines P ls x ts0 = Some (m, ts)" by simp
    from Cons.IH[OF this parse_line_metadata_dict[OF Metadata]] show ?thesis .
  next
    case Skip
    with Cons.prems have "parse_lines P ls m0 ts0 = Some (m, ts)" by simp
    from Cons.IH[OF this Cons.prems(2)] show ?thesis .
  next
    case (Timestamp t)
    with Cons.prems have "parse_lines P ls m0 (ts0 @ [t]) = Some (m, ts)" by simp
    from Cons.IH[OF this Cons.prems(2)] show ?thesis .
  next
    case Abort
    with Cons.prems show ?thesis by simp
  qed
qed

lemma parse_timestamps_metadata_dict:
  assumes "parse_timestamps P file_path = Some (metadata, timestamps)"
  shows "\<exists>kvs. metadata = JDict kvs"
proof -
  obtain ls where "parse_lines P ls (JDict []) [] = Some (metadata, timestamps)"
    using assms by (auto simp: parse_timestamps_def split: option.splits)
  from parse_lines_metadata_dict[OF this] show ?thesis by simp
qed

lemma main_before_emit_Inr:
  assumes "main_before_emit P a = Inr (Inr (timestamps', output_file, fps))"
  shows "\<exists>metadata. parse_timestamps P (arg_input a) = Some (metadata, timestamps')
     \<and> timestamps' \<noteq> []
     \<and> main_fps a metadata = Inr fps
     \<and> main_output_file P a metadata = Inr output_file"
  using assms
  by (auto simp: main_before_emit_def and_then_def split: option.splits sum.splits if_splits)

lemma main_fps_ntsc_metadata:
  assumes "map_of kvs ''fps_num'' = Some (JInt 30000)"
    and "map_of kvs ''fps_den'' = Some (JInt 1001)"
  shows "main_fps a (JDict kvs) = Inr (Finite (1054476685978981 / 35184372088832))"
proof -
  have "kvs \<noteq> []" using assms(1) by auto
  then show ?thesis
    using assms by (simp add: main_fps_def and_then_def py_truediv_def fps_30000_1001)
qed

lemma display_start: "traverse display_marker [start_marker] = Inr [()]"
  by (simp add: display_marker_def start_marker_def and_then_def float_of_int_def to_double_def
      round_binary64_def)

lemma demo_find_latest:
  "find_latest_video_file demo_platform (JStr ''/rec'') (JStr ''2024-01-01 00:00:00'')
     = Inr (Some ''/rec/old.mp4'')"
proof -
  have 1: "strptime demo_platform (JStr ''2024-01-01 00:00:00'') = Some (Datetime 2024 1 1 0 0 0)"
    by (simp add: demo_platform_def)
  have 2: "path_exists demo_platform (JStr ''/rec'') = Inr True" by (simp add: demo_platform_def)
  have 3: "listdir demo_platform (JStr ''/rec'') = Inr [''old.mp4'', ''notes.txt'', ''new.mkv'']"
    by (simp add: demo_platform_def)
  have 4: "datetime_timestamp demo_platform (Datetime 2024 1 1 0 0 0) = Inr 1704067200"
    by (simp add: demo_platform_def)
  show ?thesis
    by (simp add: find_latest_video_file_eq[OF _ 2 3 demo_scan _ 1] 4 and_then_def
        demo_newest_first)
qed

lemma main_output_file_JDict:
  "main_output_file P a (JDict kvs) =
     (case (map_of kvs ''recording_path'', map_of kvs ''timestamp'') of
        (Some recording_dir, Some recording_time) \<Rightarrow>
          and_then (find_latest_video_file P recording_dir recording_time) (\<lambda>video_file.
            case video_file of
              None \<Rightarrow> Inr (output_or_input_stem P a)
            | Some v \<Rightarrow>
                if v = [] then Inr (output_or_input_stem P a)
                else path_join P recording_dir
                       (splitext_root P (basename P v) @ ''_markers.xml''))
      | _ \<Rightarrow> Inr (output_or_input_stem P a))"
  by (cases "kvs = []")
    (auto simp: main_output_file_def and_then_def split: option.splits)

lemma main_output_file_dict:
  assumes "main_output_file P a (JDict kvs) = Inr output_file"
  shows "case resolved_video P (JDict kvs) of
           Some (recording_dir, v) \<Rightarrow>
             path_join P recording_dir (splitext_root P (basename P v) @ ''_markers.xml'')
               = Inr output_file
         | None \<Rightarrow>
             (case arg_output a of
                None \<Rightarrow> output_file = input_stem_output P a
              | Some out \<Rightarrow> output_file = (if out = [] then input_stem_output P a else out))"
  using assms unfolding main_output_file_JDict
  by (auto simp: resolved_video_def output_or_input_stem_def and_then_def
      split: option.splits sum.splits if_splits)

lemma demo_main_plain:
  "main_before_emit demo_platform (demo_args\<lparr>arg_output := Some ''out.xml''\<rparr>)
     = Inr (Inr ([start_marker], ''out.xml'', Finite 60))"
  using display_start
  by (simp add: main_before_emit_def demo_args_def parse_plain start_marker_def and_then_def
      main_fps_def main_output_file_def output_or_input_stem_def)

lemma demo_main_recording:
  "main_before_emit demo_platform
      (demo_args\<lparr>arg_input := ''recording.jsonl'', arg_output := Some ''out.xml''\<rparr>)
     = Inr (Inr ([start_marker], ''/rec/old_markers.xml'', Finite 60))"
proof -
  have "path_join demo_platform (JStr ''/rec'')
      (splitext_root demo_platform (basename demo_platform ''/rec/old.mp4'') @ ''_markers.xml'')
      = Inr ''/rec/old_markers.xml''"
    by (simp add: demo_platform_def)
  then show ?thesis
    using display_start
    by (simp add: main_before_emit_def demo_args_def parse_recording start_marker_def and_then_def
        main_fps_def main_output_file_def demo_find_latest)
qed

text \<open>
  C8 (as stated): the output path is chosen with the priority explicit output argument
  (lowest) < auto-detected name < fallback input-file-stem + \<^verbatim>\<open>_markers.xml\<close> (highest).
  The fallback is only used when \<^verbatim>\<open>not output_file\<close>: with no metadata and the output
  argument \<^verbatim>\<open>out.xml\<close>, the emitter is called with \<^verbatim>\<open>out.xml\<close>, not with the fallback
  \<^verbatim>\<open>plain_markers.xml\<close>.
\<close>

theorem fallback_highest_priority_counterexample:
  "main_before_emit demo_platform (demo_args\<lparr>arg_output := Some ''out.xml''\<rparr>)
     = Inr (Inr ([start_marker], ''out.xml'', Finite 60))
   \<and> input_stem_output demo_platform (demo_args\<lparr>arg_output := Some ''out.xml''\<rparr>)
     = ''plain_markers.xml''"
  using demo_main_plain
  by (simp add: input_stem_output_def demo_args_def demo_platform_def)

text \<open>
  C8 (amended): the orchestrator determines the output path with the priority, highest
  first: the auto-detected name derived from a resolved video file's basename (with
  suffix \<^verbatim>\<open>_markers.xml\<close>, in the recording directory), which replaces even an
  explicit output argument; then the explicit output argument, when it is given and
  not empty; then the fallback input-file-stem + \<^verbatim>\<open>_markers.xml\<close>.  The emitter is called
  with that path.
\<close>

theorem output_path_priority:
  assumes "parse_timestamps P (arg_input a) = Some (metadata, timestamps)"
    and "main_before_emit P a = Inr (Inr (timestamps', output_file, fps))"
  shows "(case resolved_video P metadata of
            Some (recording_dir, v) \<Rightarrow>
              path_join P recording_dir (splitext_root P (basename P v) @ ''_markers.xml'')
                = Inr output_file
          | None \<Rightarrow>
              (case arg_output a of
                 None \<Rightarrow> output_file = input_stem_output P a
               | Some out \<Rightarrow> output_file = (if out = [] then input_stem_output P a else out)))
    \<and> main P a fs =
        and_then (create_premiere_xml P timestamps' output_file fps
                    (arg_sequence_name a) (arg_width a) (arg_height a) fs)
          (\<lambda>(success, fs'). Inr (if success then 0 else 1, fs'))"
proof -
  from main_before_emit_Inr[OF assms(2)] assms(1)
  have o: "main_output_file P a metadata = Inr output_file" by auto
  from parse_timestamps_metadata_dict[OF assms(1)] obtain kvs where "metadata = JDict kvs" ..
  with main_output_file_dict[of P a kvs output_file] o
  have "case resolved_video P metadata of
            Some (recording_dir, v) \<Rightarrow>
              path_join P recording_dir (splitext_root P (basename P v) @ ''_markers.xml'')
                = Inr output_file
          | None \<Rightarrow>
              (case arg_output a of
                 None \<Rightarrow> output_file = input_stem_output P a
               | Some out \<Rightarrow> output_file = (if out = [] then input_stem_output P a else out))"
    by simp
  moreover have "main P a fs =
        and_then (create_premiere_xml P timestamps' output_file fps
                    (arg_sequence_name a) (arg_width a) (arg_height a) fs)
          (\<lambda>(success, fs'). Inr (if success then 0 else 1, fs'))"
    by (simp add: main_def assms(2) and_then_def)
  ultimately show ?thesis by simp
qed

theorem output_path_priority_witness:
  "parse_timestamps demo_platform
      (arg_input (demo_args\<lparr>arg_input := ''recording.jsonl'', arg_output := Some ''out.xml''\<rparr>))
     = Some (JDict [(''recording_path'', JStr ''/rec''), (''timestamp'', JStr ''2024-01-01 00:00:00'')],
             [start_marker])
   \<and> main_before_emit demo_platform
      (demo_args\<lparr>arg_input := ''recording.jsonl'', arg_output := Some ''out.xml''\<rparr>)
     = Inr (Inr ([start_marker], ''/rec/old_markers.xml'', Finite 60))
   \<and> resolved_video demo_platform
        (JDict [(''recording_path'', JStr ''/rec''), (''timestamp'', JStr ''2024-01-01 00:00:00'')])
     = Some (JStr ''/rec'', ''/rec/old.mp4'')
   \<and> path_join demo_platform (JStr ''/rec'')
        (splitext_root demo_platform (basename demo_platform ''/rec/old.mp4'') @ ''_markers.xml'')
     = Inr ''/rec/old_markers.xml''"
proof -
  let ?a = "demo_args\<lparr>arg_input := ''recording.jsonl'', arg_output := Some ''out.xml''\<rparr>"
  have p: "parse_timestamps demo_platform (arg_input ?a)
     = Some (JDict [(''recording_path'', JStr ''/rec''), (''timestamp'', JStr ''2024-01-01 00:00:00'')],
             [start_marker])"
    by (simp add: parse_recording start_marker_def)
  have r: "resolved_video demo_platform
        (JDict [(''recording_path'', JStr ''/rec''), (''timestamp'', JStr ''2024-01-01 00:00:00'')])
     = Some (JStr ''/rec'', ''/rec/old.mp4'')"
    by (simp add: resolved_video_def demo_find_latest)
  from output_path_priority[OF p demo_main_recording, of Map.empty] p demo_main_recording r
  show ?thesis by simp
qed

lemma not_ntsc_30000_1001: "\<not> is_ntsc (Finite (1054476685978981 / 35184372088832))"
  by (simp add: is_ntsc_Finite)

lemma timebase_of_30000_1001: "timebase_of (Finite (1054476685978981 / 35184372088832)) = Inr 29"
proof -
  have "trunc (1054476685978981 / 35184372088832) = 29" by (rule trunc_eqI) simp
  then show ?thesis using not_ntsc_30000_1001 by (simp add: timebase_of_def)
qed

lemma demo_main_ntsc:
  "main_before_emit demo_platform (demo_args\<lparr>arg_input := ''ntsc.jsonl'', arg_fps := Finite 24\<rparr>)
     = Inr (Inr ([start_marker], ''ntsc_markers.xml'', Finite (1054476685978981 / 35184372088832)))"
proof -
  have "main_fps (demo_args\<lparr>arg_input := ''ntsc.jsonl'', arg_fps := Finite 24\<rparr>)
      (JDict [(''fps_num'', JInt 30000), (''fps_den'', JInt 1001)])
    = Inr (Finite (1054476685978981 / 35184372088832))"
    by (rule main_fps_ntsc_metadata) simp_all
  moreover have "main_output_file demo_platform
      (demo_args\<lparr>arg_input := ''ntsc.jsonl'', arg_fps := Finite 24\<rparr>)
      (JDict [(''fps_num'', JInt 30000), (''fps_den'', JInt 1001)]) = Inr ''ntsc_markers.xml''"
    by (simp add: main_output_file_JDict output_or_input_stem_def input_stem_output_def
        demo_args_def demo_platform_def)
  ultimately show ?thesis
    using display_start
    by (simp add: main_before_emit_def parse_ntsc start_marker_def and_then_def demo_args_def)
qed

text \<open>
  C3: when the metadata holds \<^verbatim>\<open>fps_num = 30000\<close> and \<^verbatim>\<open>fps_den = 1001\<close>, the frame rate
  passed to the emitter is the double \<^verbatim>\<open>30000 / 1001\<close>, whatever \<^verbatim>\<open>--fps\<close> says; but the
  emitter recognises an NTSC rate by \<^verbatim>\<open>fps in [23.976, 29.97, 59.94]\<close>, and
  \<^verbatim>\<open>30000 / 1001 = 29.97002997...\<close> is not the double \<^verbatim>\<open>29.97\<close>: every rate element of the
  emitted document says time base 29 and ntsc FALSE.
\<close>

theorem ntsc_metadata_rate_not_flagged:
  assumes "parse_timestamps P (arg_input a) = Some (JDict kvs, timestamps)"
    and "map_of kvs ''fps_num'' = Some (JInt 30000)"
    and "map_of kvs ''fps_den'' = Some (JInt 1001)"
    and "main_before_emit P a = Inr (Inr (timestamps', output_file, fps))"
    and "create_premiere_xml P timestamps' output_file fps sequence_name width height fs
           = Inr (ok, fs')"
  shows "fps = to_double (30000 / 1001)
    \<and> fps = Finite (1054476685978981 / 35184372088832)
    \<and> \<not> is_ntsc fps
    \<and> (\<exists>doc. premiere_tree P timestamps' fps sequence_name width height = Inr doc
          \<and> elements_named ''rate'' doc = replicate 4 (rate_block ''29'' ''FALSE''))"
proof -
  from main_before_emit_Inr[OF assms(4)] assms(1)
  have ne: "timestamps' \<noteq> []" and f: "main_fps a (JDict kvs) = Inr fps" by auto
  have fps: "fps = Finite (1054476685978981 / 35184372088832)"
    using f main_fps_ntsc_metadata[OF assms(2,3), of a] by simp
  from create_premiere_xml_Inr[OF ne assms(5)]
  obtain doc where doc: "premiere_tree P timestamps' fps sequence_name width height = Inr doc"
    by blast
  from premiere_tree_Inr[OF doc]
  obtain timebase duration clip_markers sequence_markers nm where
    tb: "timebase_of fps = Inr timebase"
    and cm: "traverse (marker_element fps) timestamps' = Inr clip_markers"
    and sm: "traverse (marker_element fps) timestamps' = Inr sequence_markers"
    and d: "doc = Element ''xmeml'' [(''version'', ''4'')] JNull
        [sequence_element duration (rate_element timebase (is_ntsc fps)) nm width height
           clip_markers sequence_markers]"
    by blast
  have t29: "timebase = 29" using tb timebase_of_30000_1001 by (simp add: fps)
  have "elements_named ''rate'' doc
        = replicate 4 (rate_block (str_int timebase) (if is_ntsc fps then ''TRUE'' else ''FALSE''))"
    unfolding d rate_element_block
    by (rule rates_of_tree[OF traverse_Inr[OF cm] traverse_Inr[OF sm]])
  then have "elements_named ''rate'' doc = replicate 4 (rate_block ''29'' ''FALSE'')"
    using not_ntsc_30000_1001 by (simp add: t29 fps str_int_values)
  then show ?thesis
    using fps not_ntsc_30000_1001 doc by (simp add: fps_30000_1001)
qed

theorem ntsc_metadata_rate_not_flagged_witness:
  "parse_timestamps demo_platform
      (arg_input (demo_args\<lparr>arg_input := ''ntsc.jsonl'', arg_fps := Finite 24\<rparr>))
     = Some (JDict [(''fps_num'', JInt 30000), (''fps_den'', JInt 1001)], [start_marker])
   \<and> main_before_emit demo_platform (demo_args\<lparr>arg_input := ''ntsc.jsonl'', arg_fps := Finite 24\<rparr>)
     = Inr (Inr ([start_marker], ''ntsc_markers.xml'', Finite (1054476685978981 / 35184372088832)))
   \<and> create_premiere_xml demo_platform [start_marker] ''ntsc_markers.xml''
        (Finite (1054476685978981 / 35184372088832)) None 1920 1080 Map.empty
     = Inr (True, [''ntsc_markers.xml'' \<mapsto> final_xml (''<?xml version='' @ [CHR 0x22] @ ''1.0''
         @ [CHR 0x22] @ '' ?>'' @ [CHR 0x0A] @ ''<xmeml/>'')])
   \<and> \<not> is_ntsc (Finite (1054476685978981 / 35184372088832))
   \<and> (\<exists>doc. premiere_tree demo_platform [start_marker]
          (Finite (1054476685978981 / 35184372088832)) None 1920 1080 = Inr doc
        \<and> elements_named ''rate'' doc = replicate 4 (rate_block ''29'' ''FALSE''))"
proof -
  let ?a = "demo_args\<lparr>arg_input := ''ntsc.jsonl'', arg_fps := Finite 24\<rparr>"
  have p: "parse_timestamps demo_platform (arg_input ?a)
     = Some (JDict [(''fps_num'', JInt 30000), (''fps_den'', JInt 1001)], [start_marker])"
    by (simp add: parse_ntsc start_marker_def)
  have n: "map_of [(''fps_num'', JInt 30000), (''fps_den'', JInt 1001)] ''fps_num'' = Some (JInt 30000)"
    by simp
  have d: "map_of [(''fps_num'', JInt 30000), (''fps_den'', JInt 1001)] ''fps_den'' = Some (JInt 1001)"
    by simp
  have c: "create_premiere_xml demo_platform [start_marker] ''ntsc_markers.xml''
        (Finite (1054476685978981 / 35184372088832)) None 1920 1080 Map.empty
     = Inr (True, [''ntsc_markers.xml'' \<mapsto> final_xml (''<?xml version='' @ [CHR 0x22] @ ''1.0''
         @ [CHR 0x22] @ '' ?>'' @ [CHR 0x0A] @ ''<xmeml/>'')])"
    by (rule create_premiere_xml_start[OF timebase_of_30000_1001 frames_60000_ntsc frames_0])
  from ntsc_metadata_rate_not_flagged[OF p n d demo_main_ntsc c] p demo_main_ntsc c
  show ?thesis by (simp add: fps_30000_1001)
qed

end
